theory Spec2Isabelle
  imports Complex_Main "HOL-Library.Word" "HOL-Library.Sublist" "HOL-Library.List_Lexorder"
    "HOL-Library.Char_ord" "HOL-Library.Multiset"
begin

section \<open>The Python runtime the converter relies on\<close>

text \<open>
  The converter is Python. Its strings are modelled as \<^typ>\<open>string\<close>, compared
  lexicographically by character code (\<open>List_Lexorder\<close> over \<open>Char_ord\<close>), as Python
  compares \<open>str\<close> values; its \<open>bytes\<close> are lists of 8-bit words; its unbounded
  integers are \<^typ>\<open>int\<close>. A raised exception is a value \<open>Exn c m\<close>: the class
  \<open>c\<close> decides which \<open>except\<close> clause catches it and \<open>m\<close> is \<open>str(e)\<close>.
  A function that can raise returns \<open>exn + 'a\<close> with \<open>Inl\<close> for the exception.
\<close>

type_synonym bytes = "8 word list"

datatype exn_class =
    ValueError | UnicodeDecodeError | LookupError | TypeError | AttributeError
  | FileNotFoundError | OSError | OverflowError | RuntimeError | ImportError | OtherException

datatype exn = Exn (exn_class: exn_class) (exn_str: string)

text \<open>\<open>UnicodeDecodeError\<close> is a subclass of \<open>ValueError\<close>.\<close>

definition is_ValueError :: "exn \<Rightarrow> bool" where
  "is_ValueError e = (exn_class e = ValueError \<or> exn_class e = UnicodeDecodeError)"

definition sq :: string where
  "sq = [CHR 0x27]"

definition digit_char :: "nat \<Rightarrow> char" where
  "digit_char d = ''0123456789'' ! d"

text \<open>\<open>str(n)\<close> for a non-negative integer, and for any integer.\<close>

fun str_nat :: "nat \<Rightarrow> string" where
  "str_nat n = (if n < 10 then [digit_char n] else str_nat (n div 10) @ [digit_char (n mod 10)])"

declare str_nat.simps [simp del]

definition str_int :: "int \<Rightarrow> string" where
  "str_int i = (if i < 0 then CHR ''-'' # str_nat (nat (- i)) else str_nat (nat i))"

text \<open>\<open>s.zfill(n)\<close> on a string of digits.\<close>

definition zfill :: "nat \<Rightarrow> string \<Rightarrow> string" where
  "zfill n s = replicate (n - length s) CHR ''0'' @ s"

text \<open>
  \<open>str.lower()\<close> on the modelled characters (code points up to 255): the ASCII capitals
  and the Latin-1 capitals \<open>U+00C0..U+00DE\<close> without the multiplication sign move up by 32.
\<close>

definition lower_char :: "char \<Rightarrow> char" where
  "lower_char c =
     (let n = (of_char c :: nat)
      in if (65 \<le> n \<and> n \<le> 90) \<or> (192 \<le> n \<and> n \<le> 222 \<and> n \<noteq> 215) then char_of (n + 32) else c)"

definition lower :: "string \<Rightarrow> string" where
  "lower s = map lower_char s"

text \<open>\<open>str.isspace()\<close> on one modelled character, and \<open>s.split()\<close> on runs of such characters.\<close>

definition is_space :: "char \<Rightarrow> bool" where
  "is_space c =
     (let n = (of_char c :: nat)
      in (9 \<le> n \<and> n \<le> 13) \<or> (28 \<le> n \<and> n \<le> 32) \<or> n = 133 \<or> n = 160)"

fun split_ws :: "string \<Rightarrow> string \<Rightarrow> string list" where
  "split_ws [] w = (if w = [] then [] else [w])"
| "split_ws (c # cs) w =
     (if is_space c then (if w = [] then split_ws cs [] else w # split_ws cs [])
      else split_ws cs (w @ [c]))"

definition str_split :: "string \<Rightarrow> string list" where
  "str_split s = split_ws s []"

subsection \<open>Floating point\<close>

text \<open>
  A Python \<open>float\<close> is an IEEE double; its value is modelled by the rational number it
  denotes. \<open>round_double\<close> rounds a non-negative rational to the nearest double (53
  significant bits, ties to even; the values that occur are in the normal range), and
  \<open>binade x\<close> is the \<open>n\<close> with \<open>2 ^ (n - 1) \<le> x < 2 ^ n\<close>.
\<close>

function bit_length :: "int \<Rightarrow> nat" where
  "bit_length n = (if n \<le> 0 then 0 else Suc (bit_length (n div 2)))"
  by pat_completeness auto
termination
  by (relation "measure nat") auto

declare bit_length.simps [simp del]

definition round_half_even :: "rat \<Rightarrow> int" where
  "round_half_even q =
     (let f = \<lfloor>q\<rfloor>; r = q - of_int f
      in if r < 1 / 2 then f else if 1 / 2 < r then f + 1 else if even f then f else f + 1)"

definition pow2 :: "int \<Rightarrow> rat" where
  "pow2 k = (if 0 \<le> k then 2 ^ nat k else 1 / 2 ^ nat (- k))"

definition binade :: "rat \<Rightarrow> int" where
  "binade x =
     (if 1 \<le> x then int (bit_length \<lfloor>x\<rfloor>)
      else 1 - int (bit_length (\<lceil>1 / x\<rceil> - 1)))"

definition round_double :: "rat \<Rightarrow> rat" where
  "round_double x =
     (if x = 0 then 0
      else (let e = binade x - 53 in of_int (round_half_even (x / pow2 e)) * pow2 e))"

text \<open>
  \<open>a / b\<close> on integers \<open>a \<ge> 0\<close> and \<open>b > 0\<close>: the quotient correctly rounded, or
  \<open>OverflowError\<close> when that is beyond the largest double.
\<close>

definition int_truediv :: "int \<Rightarrow> int \<Rightarrow> exn + rat" where
  "int_truediv a b =
     (let r = round_double (of_int a / of_int b)
      in if 2 ^ 1024 \<le> r then Inl (Exn OverflowError ''integer division result too large for a float'')
         else Inr r)"

text \<open>\<open>x / y\<close> and \<open>x * y\<close> on floats that stay in range.\<close>

definition float_div :: "rat \<Rightarrow> rat \<Rightarrow> rat" where
  "float_div x y = round_double (x / y)"

definition float_mul :: "rat \<Rightarrow> rat \<Rightarrow> rat" where
  "float_mul x y = round_double (x * y)"

text \<open>\<open>f"{x:.1f}"\<close> for a float \<open>x \<ge> 0\<close>: its value rounded to one decimal, ties to even.\<close>

definition format_1f :: "rat \<Rightarrow> string" where
  "format_1f x =
     (let t = round_half_even (x * 10) in str_int (t div 10) @ ''.'' @ str_int (t mod 10))"

subsection \<open>More string operations\<close>

text \<open>\<open>html.escape(s)\<close> with \<open>quote=True\<close>.\<close>

definition html_escape :: "string \<Rightarrow> string" where
  "html_escape s =
     concat (map (\<lambda>c. if c = CHR ''&'' then ''&amp;''
                       else if c = CHR ''<'' then ''&lt;''
                       else if c = CHR ''>'' then ''&gt;''
                       else if c = CHR 0x22 then ''&quot;''
                       else if c = CHR 0x27 then ''&#x27;''
                       else [c]) s)"

text \<open>\<open>s.split('\n\n')\<close>, with the part read so far as accumulator.\<close>

fun split_blank :: "string \<Rightarrow> string \<Rightarrow> string list" where
  "split_blank [] acc = [acc]"
| "split_blank [c] acc = [acc @ [c]]"
| "split_blank (c # d # cs) acc =
     (if c = CHR 0x0A \<and> d = CHR 0x0A then acc # split_blank cs []
      else split_blank (d # cs) (acc @ [c]))"

text \<open>\<open>s.replace(chr(10), "<br/>")\<close>\<close>

definition br_lines :: "string \<Rightarrow> string" where
  "br_lines s = concat (map (\<lambda>c. if c = CHR 0x0A then ''<br/>'' else [c]) s)"

text \<open>\<open>sep.join(parts)\<close>\<close>

fun join :: "string \<Rightarrow> string list \<Rightarrow> string" where
  "join sep [] = []"
| "join sep [x] = x"
| "join sep (x # y # zs) = x @ sep @ join sep (y # zs)"

text \<open>The truth value of \<open>s.strip()\<close>: some character of \<open>s\<close> is not white space.\<close>

definition nonblank :: "string \<Rightarrow> bool" where
  "nonblank s = (\<not> list_all is_space s)"

text \<open>
  \<open>''.join(f'<p>{f(para).replace(chr(10), "<br/>")}</p>' for para in paragraphs if para.strip())\<close>,
  where \<open>f\<close> is the identity in the text renderers, which escape the whole text beforehand, and
  \<open>html.escape\<close> in the Word renderer, which escapes each paragraph.
\<close>

definition paragraphs_html :: "(string \<Rightarrow> string) \<Rightarrow> string list \<Rightarrow> string" where
  "paragraphs_html f paragraphs =
     concat (map (\<lambda>para. ''<p>'' @ br_lines (f para) @ ''</p>'') (filter nonblank paragraphs))"

subsection \<open>Codecs\<close>

text \<open>
  The interpreter and the libraries the converter calls are parameters of the model, collected
  in the record \<open>runtime\<close>; each field is documented where it is used. Strict UTF-8
  decoding either returns the text or raises \<open>UnicodeDecodeError\<close> (\<open>Inl\<close> carries its
  message). Latin-1 assigns a character to every byte, so decoding it is total whatever the
  error handler.
\<close>

datatype errors_mode = Strict | Replace

subsection \<open>datetime\<close>

text \<open>
  A \<open>datetime\<close> value: the calendar fields, and the offset of its \<open>tzinfo\<close> from UTC
  in seconds (\<open>None\<close> for a naive value, which \<open>parsedate_to_datetime\<close> returns for
  the zone \<open>-0000\<close>). The library keeps \<open>1 \<le> year \<le> 9999\<close> and \<open>1 \<le> month \<le> 12\<close>.
\<close>

record datetime =
  year :: int
  month :: int
  day :: int
  hour :: int
  minute :: int
  second :: int
  microsecond :: int
  utcoffset :: "int option"

definition is_leap :: "int \<Rightarrow> bool" where
  "is_leap y = (y mod 4 = 0 \<and> (y mod 100 \<noteq> 0 \<or> y mod 400 = 0))"

definition days_before_year :: "int \<Rightarrow> int" where
  "days_before_year y = (y - 1) * 365 + (y - 1) div 4 - (y - 1) div 100 + (y - 1) div 400"

definition days_before_month :: "int \<Rightarrow> int \<Rightarrow> int" where
  "days_before_month y m =
     [0, 31, 59, 90, 120, 151, 181, 212, 243, 273, 304, 334] ! nat (m - 1)
       + (if m > 2 \<and> is_leap y then 1 else 0)"

definition ymd2ord :: "int \<Rightarrow> int \<Rightarrow> int \<Rightarrow> int" where
  "ymd2ord y m d = days_before_year y + days_before_month y m + d"

text \<open>
  The position of a \<open>datetime\<close> on the time line, in microseconds: two aware values
  compare by it, and so do two naive values (for which it orders the field tuples).
\<close>

definition instant :: "datetime \<Rightarrow> int" where
  "instant d =
     ((((ymd2ord (year d) (month d) (day d) * 24 + hour d) * 60 + minute d) * 60 + second d)
        - (case utcoffset d of None \<Rightarrow> 0 | Some off \<Rightarrow> off)) * 1000000
     + microsecond d"

definition aware :: "datetime \<Rightarrow> bool" where
  "aware d = (utcoffset d \<noteq> None)"

text \<open>
  \<open>strftime\<close> directives in the C locale: \<open>%Y\<close> (the year in decimal; the C library
  under CPython on Linux does not pad it, so the year 999 is written \<open>999\<close>), \<open>%m\<close>
  (two-digit month) and \<open>%B\<close> (full month name).
\<close>

definition month_names :: "string list" where
  "month_names = [''January'', ''February'', ''March'', ''April'', ''May'', ''June'', ''July'',
     ''August'', ''September'', ''October'', ''November'', ''December'']"

definition strftime_Y :: "datetime \<Rightarrow> string" where
  "strftime_Y d = str_int (year d)"

definition strftime_m :: "datetime \<Rightarrow> string" where
  "strftime_m d = zfill 2 (str_int (month d))"

definition strftime_B :: "datetime \<Rightarrow> string" where
  "strftime_B d = month_names ! nat (month d - 1)"

subsection \<open>Libraries\<close>

text \<open>
  \<^item> \<open>utf8_strict\<close>, \<open>utf8_replace\<close>: \<open>bytes.decode("utf-8")\<close> with \<open>errors="strict"\<close>
    (\<open>Inl m\<close> is \<open>UnicodeDecodeError\<close> with message \<open>m\<close>) and with \<open>errors="replace"\<close>;
  \<^item> \<open>other_codec\<close>: strict decoding with any other named codec (it may raise
    \<open>UnicodeDecodeError\<close>, or \<open>LookupError\<close> for an unknown name);
  \<^item> \<open>parsedate_to_datetime\<close>: \<open>email.utils.parsedate_to_datetime\<close> on a \<open>str\<close>;
  \<^item> \<open>header_str\<close>: \<open>str(h)\<close> for the \<open>email.header.Header\<close> object \<open>h\<close> that holds the
    given raw field value;
  \<^item> \<open>csv_reader\<close>: \<open>list(csv.reader(io.StringIO(content)))\<close>;
  \<^item> \<open>bleach_clean\<close>: importing \<open>bleach\<close> and calling \<open>clean\<close> with the converter's
    allow-lists;
  \<^item> \<open>docx_paragraphs\<close>: importing \<open>docx\<close>, opening the document and reading the text of
    each paragraph;
  \<^item> \<open>load_workbook\<close>: importing \<open>openpyxl\<close>, loading the workbook and reading, per sheet
    in order, its name and its rows of cells (\<open>None\<close> for an empty cell, else \<open>str(value)\<close>);
  \<^item> \<open>b64encode\<close>: \<open>base64.b64encode(raw).decode("ascii")\<close>.
\<close>

record runtime =
  utf8_strict :: "bytes \<Rightarrow> string + string"
  utf8_replace :: "bytes \<Rightarrow> string"
  other_codec :: "string \<Rightarrow> bytes \<Rightarrow> exn + string"
  parsedate_to_datetime :: "string \<Rightarrow> exn + datetime"
  header_str :: "string \<Rightarrow> string"
  csv_reader :: "string \<Rightarrow> exn + string list list"
  bleach_clean :: "string \<Rightarrow> exn + string"
  docx_paragraphs :: "bytes \<Rightarrow> exn + string list"
  load_workbook :: "bytes \<Rightarrow> exn + (string \<times> string option list list) list"
  b64encode :: "bytes \<Rightarrow> string"

definition latin1_decode :: "bytes \<Rightarrow> string" where
  "latin1_decode bs = map (\<lambda>b. char_of (unat b)) bs"

text \<open>\<open>bs.decode(encoding, errors=mode)\<close>\<close>

definition bytes_decode :: "runtime \<Rightarrow> string \<Rightarrow> errors_mode \<Rightarrow> bytes \<Rightarrow> exn + string" where
  "bytes_decode rt encoding mode bs =
     (if encoding = ''utf-8'' then
        (case mode of
           Strict \<Rightarrow> (case utf8_strict rt bs of
                        Inl m \<Rightarrow> Inl (Exn UnicodeDecodeError m)
                      | Inr s \<Rightarrow> Inr s)
         | Replace \<Rightarrow> Inr (utf8_replace rt bs))
      else if encoding = ''latin-1'' then Inr (latin1_decode bs)
      else other_codec rt encoding bs)"

section \<open>Data model\<close>

text \<open>
  What \<open>message.get\<close> returns for a field of a message read from a mailbox file. The
  \<open>email\<close> library returns the value as a \<open>str\<close> when all its bytes are ASCII, and as an
  \<open>email.header.Header\<close> object, here with the raw value, when the field holds a byte
  outside ASCII. A \<open>Header\<close> object is not a string: it has no \<open>split\<close>, \<open>replace\<close> or
  \<open>len\<close>, and it cannot be hashed. The \<open>Email\<close> record stores these values as it gets them.
\<close>

datatype header_value = Str string | Header string

definition header_fetch :: "string \<Rightarrow> header_value" where
  "header_fetch v = (if list_all (\<lambda>c. (of_char c :: nat) < 128) v then Str v else Header v)"

text \<open>\<open>str(v)\<close>, also when \<open>v\<close> is formatted into an f-string.\<close>

definition str_value :: "runtime \<Rightarrow> header_value \<Rightarrow> string" where
  "str_value rt v = (case v of Str s \<Rightarrow> s | Header h \<Rightarrow> header_str rt h)"

text \<open>The exceptions that using a \<open>Header\<close> object as a string raises.\<close>

definition no_attribute :: "string \<Rightarrow> exn" where
  "no_attribute name =
     Exn AttributeError (sq @ ''Header'' @ sq @ '' object has no attribute '' @ sq @ name @ sq)"

definition unhashable :: exn where
  "unhashable = Exn TypeError (''unhashable type: '' @ sq @ ''Header'' @ sq)"

definition no_len :: exn where
  "no_len = Exn TypeError (''object of type '' @ sq @ ''Header'' @ sq @ '' has no len()'')"

record Attachment =
  filename :: string
  mime_type :: string
  size_bytes :: int
  raw_content :: bytes
  rendered_content :: "string option"
  content_type :: "string option"
  error :: "string option"

record Email =
  message_id :: header_value
  from_addr :: header_value
  to_addr :: header_value
  date :: datetime
  subject :: header_value
  body_text :: string
  body_html :: "string option"
  cc_addr :: "header_value option"
  bcc_addr :: "header_value option"
  in_reply_to :: "header_value option"
  references :: "string list option"
  attachments :: "Attachment list"
  headers :: "(string \<times> header_value) list"
  x_mailer :: "header_value option"

section \<open>Sorting by date\<close>

text \<open>
  \<open>emails.sort(key=lambda e: e.date)\<close>: a stable sort by the \<open>datetime\<close> order.
  Comparing a naive with an aware \<open>datetime\<close> raises \<open>TypeError\<close>, and sorting a list
  that holds both has to compare such a pair, so the sort raises exactly on mixed lists.
\<close>

definition comparable :: "Email list \<Rightarrow> bool" where
  "comparable es = (list_all (\<lambda>e. aware (date e)) es \<or> list_all (\<lambda>e. \<not> aware (date e)) es)"

definition sort_by_date :: "Email list \<Rightarrow> exn + Email list" where
  "sort_by_date es =
     (if comparable es then Inr (sort_key (\<lambda>e. instant (date e)) es)
      else Inl (Exn TypeError ''can't compare offset-naive and offset-aware datetimes''))"

section \<open>Mail parser\<close>

text \<open>
  A message of the mailbox as the parser reads it: its header fields in order, each with its
  raw value (a byte as the character of that code), and what the \<open>email\<close> library reports
  for it: \<open>get_content_type()\<close>, \<open>get_filename()\<close>,
  \<open>get_content_charset()\<close>, \<open>get_payload(decode=True)\<close>, \<open>is_multipart()\<close> and the
  sub-parts of a multipart message.
\<close>

datatype message = Message
  (msg_headers: "(string \<times> string) list")
  (msg_content_type: string)
  (msg_filename: "string option")
  (msg_charset: "string option")
  (msg_payload: "bytes option")
  (is_multipart: bool)
  (msg_parts: "message list")

text \<open>
  \<open>message.get(name)\<close> and \<open>message.get(name, dflt)\<close>: the value of the first field whose
  name matches, ignoring case.
\<close>

fun header_get :: "(string \<times> string) list \<Rightarrow> string \<Rightarrow> header_value option" where
  "header_get [] name = None"
| "header_get ((k, v) # hs) name =
     (if lower k = lower name then Some (header_fetch v) else header_get hs name)"

definition msg_get :: "message \<Rightarrow> string \<Rightarrow> header_value option" where
  "msg_get m name = header_get (msg_headers m) name"

definition msg_get_default :: "message \<Rightarrow> string \<Rightarrow> string \<Rightarrow> header_value" where
  "msg_get_default m name dflt = (case msg_get m name of None \<Rightarrow> Str dflt | Some v \<Rightarrow> v)"

text \<open>\<open>message.walk()\<close>: the message, then the walk of each sub-part in order.\<close>

fun walk :: "message \<Rightarrow> message list" where
  "walk (Message hs ct fn cs pl mp parts) =
     Message hs ct fn cs pl mp parts # (if mp then concat (map walk parts) else [])"

definition get_content_maintype :: "message \<Rightarrow> string" where
  "get_content_maintype m = takeWhile (\<lambda>c. c \<noteq> CHR ''/'') (msg_content_type m)"

definition decode_payload :: "runtime \<Rightarrow> message \<Rightarrow> exn + string" where
  "decode_payload rt part =
     (case msg_payload part of
        None \<Rightarrow> Inr ''''
      | Some payload \<Rightarrow>
          (let charset = (case msg_charset part of
                            None \<Rightarrow> ''utf-8''
                          | Some c \<Rightarrow> if c = '''' then ''utf-8'' else c)
           in case bytes_decode rt charset Strict payload of
                Inr s \<Rightarrow> Inr s
              | Inl e \<Rightarrow>
                  if exn_class e = UnicodeDecodeError \<or> exn_class e = LookupError then
                    (case bytes_decode rt ''utf-8'' Strict payload of
                       Inr s \<Rightarrow> Inr s
                     | Inl e' \<Rightarrow>
                         if exn_class e' = UnicodeDecodeError
                         then bytes_decode rt ''latin-1'' Replace payload
                         else Inl e')
                  else Inl e))"

definition parse_attachment :: "message \<Rightarrow> Attachment option" where
  "parse_attachment part =
     (let filename = (case msg_filename part of
                        None \<Rightarrow> ''unnamed_attachment''
                      | Some f \<Rightarrow> if f = '''' then ''unnamed_attachment'' else f);
          mime_type = msg_content_type part
      in case msg_payload part of
           None \<Rightarrow> None
         | Some payload \<Rightarrow>
             Some \<lparr>filename = filename, mime_type = mime_type,
                   size_bytes = int (length payload), raw_content = payload,
                   rendered_content = None, content_type = None, error = None\<rparr>)"

text \<open>
  The loop over \<open>message.walk()\<close> of a multipart message, on the state
  \<open>(body_text, body_html, attachments)\<close>: its body for one part, then the loop.
\<close>

definition extract_step ::
  "runtime \<Rightarrow> message \<Rightarrow> string \<times> string option \<times> Attachment list
     \<Rightarrow> exn + string \<times> string option \<times> Attachment list" where
  "extract_step rt part st =
     (case st of (btext, bhtml, atts) \<Rightarrow>
        (let ctype = msg_content_type part;
             content_disposition = str_value rt (msg_get_default part ''Content-Disposition'' '''')
         in if get_content_maintype part = ''multipart'' then Inr st
            else if sublist ''attachment'' content_disposition
                    \<or> (case msg_filename part of None \<Rightarrow> False | Some f \<Rightarrow> f \<noteq> '''') then
              (case parse_attachment part of
                 Some a \<Rightarrow> Inr (btext, bhtml, atts @ [a])
               | None \<Rightarrow> Inr st)
            else if ctype = ''text/plain'' \<and> btext = '''' then
              (case decode_payload rt part of
                 Inl e \<Rightarrow> Inl e
               | Inr s \<Rightarrow> Inr (s, bhtml, atts))
            else if ctype = ''text/html'' \<and> bhtml = None then
              (case decode_payload rt part of
                 Inl e \<Rightarrow> Inl e
               | Inr s \<Rightarrow> Inr (btext, Some s, atts))
            else Inr st))"

fun extract_parts ::
  "runtime \<Rightarrow> message list \<Rightarrow> string \<times> string option \<times> Attachment list
     \<Rightarrow> exn + string \<times> string option \<times> Attachment list" where
  "extract_parts rt [] st = Inr st"
| "extract_parts rt (part # parts) st =
     (case extract_step rt part st of
        Inl e \<Rightarrow> Inl e
      | Inr st' \<Rightarrow> extract_parts rt parts st')"

definition extract_body_and_attachments ::
  "runtime \<Rightarrow> message \<Rightarrow> exn + string \<times> string option \<times> Attachment list" where
  "extract_body_and_attachments rt m =
     (if is_multipart m then extract_parts rt (walk m) ('''', None, [])
      else if msg_content_type m = ''text/plain'' then
        (case decode_payload rt m of Inl e \<Rightarrow> Inl e | Inr s \<Rightarrow> Inr (s, None, []))
      else if msg_content_type m = ''text/html'' then
        (case decode_payload rt m of Inl e \<Rightarrow> Inl e | Inr s \<Rightarrow> Inr ('''', Some s, []))
      else Inr ('''', None, []))"

text \<open>
  \<open>{key: message.get(key) for key in message.keys()}\<close>: one entry per distinct field name,
  at the place of its first occurrence, holding what \<open>get\<close> returns for that name.
\<close>

fun dict_set ::
  "string \<Rightarrow> header_value \<Rightarrow> (string \<times> header_value) list \<Rightarrow> (string \<times> header_value) list" where
  "dict_set k v [] = [(k, v)]"
| "dict_set k v ((k', v') # d) = (if k = k' then (k', v) # d else (k', v') # dict_set k v d)"

definition headers_dict :: "message \<Rightarrow> (string \<times> header_value) list" where
  "headers_dict m =
     foldl (\<lambda>d k. dict_set k (msg_get_default m k '''') d) [] (map fst (msg_headers m))"

text \<open>
  \<open>parsedate_to_datetime(date_str)\<close> on what \<open>message.get\<close> returned: the library starts
  with \<open>date_str.split()\<close>, which a \<open>Header\<close> object does not have.
\<close>

definition parse_date :: "runtime \<Rightarrow> header_value \<Rightarrow> exn + datetime" where
  "parse_date rt date_str =
     (case date_str of
        Str s \<Rightarrow> parsedate_to_datetime rt s
      | Header h \<Rightarrow> Inl (no_attribute ''split''))"

text \<open>\<open>references_str.split()\<close> when \<open>references_str\<close> is there and true.\<close>

definition parse_references :: "header_value option \<Rightarrow> exn + string list option" where
  "parse_references references_str =
     (case references_str of
        None \<Rightarrow> Inr None
      | Some (Str r) \<Rightarrow> Inr (if r = '''' then None else Some (str_split r))
      | Some (Header h) \<Rightarrow> Inl (no_attribute ''split''))"

text \<open>
  \<open>_parse_message\<close>: \<open>Inr None\<close> is the skipped message (its date does not parse),
  \<open>Inl\<close> an exception that is not caught here.
\<close>

definition parse_message :: "runtime \<Rightarrow> message \<Rightarrow> exn + Email option" where
  "parse_message rt m =
     (let mid = msg_get_default m ''Message-ID'' '''';
          frm = msg_get_default m ''From'' '''';
          to = msg_get_default m ''To'' '''';
          subj = msg_get_default m ''Subject'' '''';
          date_str = msg_get_default m ''Date'' ''''
      in case parse_date rt date_str of
           Inl e \<Rightarrow> if is_ValueError e \<or> exn_class e = TypeError then Inr None else Inl e
         | Inr d \<Rightarrow>
             (case parse_references (msg_get m ''References'') of
                Inl e \<Rightarrow> Inl e
              | Inr refs \<Rightarrow>
                  (case extract_body_and_attachments rt m of
                     Inl e \<Rightarrow> Inl e
                   | Inr (text, html, atts) \<Rightarrow>
                       Inr (Some \<lparr>message_id = mid, from_addr = frm, to_addr = to, date = d,
                                  subject = subj, body_text = text, body_html = html,
                                  cc_addr = msg_get m ''Cc'', bcc_addr = msg_get m ''Bcc'',
                                  in_reply_to = msg_get m ''In-Reply-To'', references = refs,
                                  attachments = atts, headers = headers_dict m,
                                  x_mailer = msg_get m ''X-Mailer''\<rparr>))))"

text \<open>The loop of \<open>parse_mbox\<close> over the messages of the mailbox.\<close>

fun parse_messages :: "runtime \<Rightarrow> message list \<Rightarrow> exn + Email list" where
  "parse_messages rt [] = Inr []"
| "parse_messages rt (m # ms) =
     (case parse_message rt m of
        Inl e \<Rightarrow> Inl e
      | Inr r \<Rightarrow>
          (case parse_messages rt ms of
             Inl e \<Rightarrow> Inl e
           | Inr es \<Rightarrow> Inr (case r of None \<Rightarrow> es | Some email \<Rightarrow> email # es)))"

text \<open>
  The mailbox files: \<open>None\<close> where no file exists at the path, \<open>Some (Inl e)\<close> where
  opening or reading the file raises \<open>e\<close>, else the messages of the file in order.
\<close>

type_synonym mbox_files = "string \<Rightarrow> (exn + message list) option"

definition parse_mbox :: "runtime \<Rightarrow> mbox_files \<Rightarrow> string \<Rightarrow> exn + Email list" where
  "parse_mbox rt fs mbox_path =
     (case fs mbox_path of
        None \<Rightarrow> Inl (Exn FileNotFoundError (''mbox file not found: '' @ mbox_path))
      | Some (Inl e) \<Rightarrow> Inl e
      | Some (Inr msgs) \<Rightarrow>
          (case parse_messages rt msgs of Inl e \<Rightarrow> Inl e | Inr emails \<Rightarrow> sort_by_date emails))"

section \<open>Deduplicator and merger\<close>

text \<open>
  The inner loop, on the state \<open>(seen_message_ids, unique_emails)\<close>. The membership test
  on the set hashes the identifier, which raises \<open>TypeError\<close> for a \<open>Header\<close> object.
\<close>

fun dedup_emails ::
  "Email list \<Rightarrow> header_value set \<times> Email list \<Rightarrow> exn + header_value set \<times> Email list" where
  "dedup_emails [] st = Inr st"
| "dedup_emails (email # emails) (seen, uniq) =
     (case message_id email of
        Header h \<Rightarrow> Inl unhashable
      | Str i \<Rightarrow>
          if message_id email \<notin> seen
          then dedup_emails emails (insert (message_id email) seen, uniq @ [email])
          else dedup_emails emails (seen, uniq))"

fun merge_files ::
  "runtime \<Rightarrow> mbox_files \<Rightarrow> string list \<Rightarrow> header_value set \<times> Email list
     \<Rightarrow> exn + header_value set \<times> Email list" where
  "merge_files rt fs [] st = Inr st"
| "merge_files rt fs (p # ps) st =
     (case parse_mbox rt fs p of
        Inl e \<Rightarrow> Inl e
      | Inr emails \<Rightarrow>
          (case dedup_emails emails st of
             Inl e \<Rightarrow> Inl e
           | Inr st' \<Rightarrow> merge_files rt fs ps st'))"

definition merge_and_deduplicate :: "runtime \<Rightarrow> mbox_files \<Rightarrow> string list \<Rightarrow> exn + Email list" where
  "merge_and_deduplicate rt fs mbox_paths =
     (case merge_files rt fs mbox_paths ({}, []) of
        Inl e \<Rightarrow> Inl e
      | Inr (seen, uniq) \<Rightarrow> sort_by_date uniq)"

section \<open>Date grouper\<close>

definition get_group_key :: "datetime \<Rightarrow> string \<Rightarrow> string" where
  "get_group_key d strategy =
     (if strategy = ''month'' then strftime_Y d @ ''-'' @ strftime_m d @ ''-'' @ strftime_B d
      else if strategy = ''quarter'' then
        (let quarter = (month d - 1) div 3 + 1 in str_int (year d) @ ''-Q'' @ str_int quarter)
      else str_int (year d))"

text \<open>
  The dictionary \<open>groups\<close> keeps insertion order: an association list with one entry per
  key. \<open>groups_append\<close> is the loop body
  \<open>if key not in groups: groups[key] = []; groups[key].append(email)\<close>.
\<close>

fun groups_append :: "string \<Rightarrow> Email \<Rightarrow> (string \<times> Email list) list \<Rightarrow> (string \<times> Email list) list" where
  "groups_append k e [] = [(k, [e])]"
| "groups_append k e ((k', es) # g) =
     (if k = k' then (k', es @ [e]) # g else (k', es) # groups_append k e g)"

definition build_groups :: "Email list \<Rightarrow> string \<Rightarrow> (string \<times> Email list) list" where
  "build_groups emails strategy =
     foldl (\<lambda>g e. groups_append (get_group_key (date e) strategy) e g) [] emails"

text \<open>\<open>for key in groups: groups[key].sort(key=lambda e: e.date)\<close>\<close>

fun sort_groups :: "(string \<times> Email list) list \<Rightarrow> exn + (string \<times> Email list) list" where
  "sort_groups [] = Inr []"
| "sort_groups ((k, es) # g) =
     (case sort_by_date es of
        Inl e \<Rightarrow> Inl e
      | Inr es' \<Rightarrow> (case sort_groups g of Inl e \<Rightarrow> Inl e | Inr g' \<Rightarrow> Inr ((k, es') # g')))"

definition group_emails_by_date :: "Email list \<Rightarrow> string \<Rightarrow> exn + (string \<times> Email list) list" where
  "group_emails_by_date emails strategy =
     (if strategy \<notin> {''month'', ''quarter'', ''year''} then
        Inl (Exn ValueError (''Invalid grouping strategy: '' @ sq @ strategy @ sq
               @ ''. Must be 'month', 'quarter', or 'year'.''))
      else if emails = [] then Inr []
      else (case sort_groups (build_groups emails strategy) of
              Inl e \<Rightarrow> Inl e
            | Inr groups \<Rightarrow> Inr (sort_key fst groups)))"

section \<open>Attachment renderer\<close>

text \<open>
  \<open>Attachment.format_size_for_display\<close>. The loop over the units \<open>B\<close>, \<open>KB\<close>, \<open>MB\<close> is
  written out: the size is an integer in the first round and a float after the first
  division, which is the one that can overflow.
\<close>

definition format_size_for_display :: "Attachment \<Rightarrow> exn + string" where
  "format_size_for_display a =
     (let sz = size_bytes a
      in if sz < 1024 then Inr (str_int sz @ '' B'')
         else (case int_truediv sz 1024 of
                 Inl e \<Rightarrow> Inl e
               | Inr kb \<Rightarrow>
                   if kb < 1024 then Inr (format_1f kb @ '' KB'')
                   else (let mb = float_div kb 1024
                         in if mb < 1024 then Inr (format_1f mb @ '' MB'')
                            else Inr (format_1f (float_div mb 1024) @ '' GB''))))"

definition render_reference :: "Attachment \<Rightarrow> exn + string" where
  \<open>render_reference a =
     (let fname = html_escape (filename a);
          mime = html_escape (mime_type a)
      in case format_size_for_display a of
           Inl e \<Rightarrow> Inl e
         | Inr size_str \<Rightarrow>
             Inr (''<div class="attachment-reference">''
                  @ ''<strong>Attachment:</strong> '' @ fname @ ''<br/>''
                  @ ''<small>Type: '' @ mime @ '' | Size: '' @ size_str @ ''</small><br/>''
                  @ ''<em>This attachment type cannot be rendered in the PDF.</em>''
                  @ ''</div>''))\<close>

text \<open>
  The decoding steps of the three text renderers, as each of them writes its
  \<open>try\<close>/\<open>except UnicodeDecodeError\<close> chain.
\<close>

definition render_csv_decode :: "runtime \<Rightarrow> bytes \<Rightarrow> exn + string" where
  "render_csv_decode rt raw =
     (case bytes_decode rt ''utf-8'' Strict raw of
        Inr content \<Rightarrow> Inr content
      | Inl e \<Rightarrow>
          if exn_class e = UnicodeDecodeError then bytes_decode rt ''latin-1'' Replace raw
          else Inl e)"

definition render_html_decode :: "runtime \<Rightarrow> bytes \<Rightarrow> exn + string" where
  "render_html_decode rt raw =
     (case bytes_decode rt ''utf-8'' Strict raw of
        Inr content \<Rightarrow> Inr content
      | Inl e \<Rightarrow>
          if exn_class e = UnicodeDecodeError then
            (case bytes_decode rt ''latin-1'' Strict raw of
               Inr content \<Rightarrow> Inr content
             | Inl e' \<Rightarrow>
                 if exn_class e' = UnicodeDecodeError then bytes_decode rt ''utf-8'' Replace raw
                 else Inl e')
          else Inl e)"

definition render_text_decode :: "runtime \<Rightarrow> bytes \<Rightarrow> exn + string" where
  "render_text_decode rt raw =
     (case bytes_decode rt ''utf-8'' Strict raw of
        Inr content \<Rightarrow> Inr content
      | Inl e \<Rightarrow>
          if exn_class e = UnicodeDecodeError then
            (case bytes_decode rt ''latin-1'' Strict raw of
               Inr content \<Rightarrow> Inr content
             | Inl e' \<Rightarrow>
                 if exn_class e' = UnicodeDecodeError then bytes_decode rt ''utf-8'' Replace raw
                 else Inl e')
          else Inl e)"

definition render_docx :: "runtime \<Rightarrow> Attachment \<Rightarrow> exn + string" where
  \<open>render_docx rt a =
     (case docx_paragraphs rt (raw_content a) of
        Inl e \<Rightarrow> Inl e
      | Inr paras \<Rightarrow>
          (let text = join [CHR 0x0A, CHR 0x0A] (filter nonblank paras)
           in if text = [] then render_reference a
              else (let paragraphs = split_blank text [];
                        formatted = paragraphs_html html_escape paragraphs
                    in Inr (''<div class="attachment-docx">'' @ formatted @ ''</div>''))))\<close>

definition sheet_html :: "string \<times> string option list list \<Rightarrow> string list" where
  \<open>sheet_html sheet =
     (case sheet of (sheet_name, rows) \<Rightarrow>
        [''<h4 style="margin-top: 1em; margin-bottom: 0.5em;">'' @ html_escape sheet_name @ ''</h4>'',
         ''<table class="attachment-xlsx">'']
        @ concat (map (\<lambda>row.
            [''<tr>'']
            @ map (\<lambda>cell. ''<td>''
                     @ html_escape (case cell of None \<Rightarrow> [] | Some v \<Rightarrow> v) @ ''</td>'') row
            @ [''</tr>'']) rows)
        @ [''</table>''])\<close>

definition render_xlsx :: "runtime \<Rightarrow> Attachment \<Rightarrow> exn + string" where
  \<open>render_xlsx rt a =
     (case load_workbook rt (raw_content a) of
        Inl e \<Rightarrow> Inl e
      | Inr sheets \<Rightarrow>
          (let html_parts = concat (map sheet_html sheets)
           in if html_parts = [] then render_reference a
              else Inr (''<div class="attachment-xlsx">'' @ concat html_parts @ ''</div>'')))\<close>

definition render_html :: "runtime \<Rightarrow> Attachment \<Rightarrow> exn + string" where
  \<open>render_html rt a =
     (case render_html_decode rt (raw_content a) of
        Inl e \<Rightarrow> Inl e
      | Inr content \<Rightarrow>
          (case bleach_clean rt content of
             Inl e \<Rightarrow> Inl e
           | Inr sanitized \<Rightarrow> Inr (''<div class="attachment-html">'' @ sanitized @ ''</div>'')))\<close>

definition render_text :: "runtime \<Rightarrow> Attachment \<Rightarrow> exn + string" where
  \<open>render_text rt a =
     (case render_text_decode rt (raw_content a) of
        Inl e \<Rightarrow> Inl e
      | Inr content \<Rightarrow>
          (let escaped = html_escape content;
               paragraphs = split_blank escaped [];
               formatted = paragraphs_html (\<lambda>para. para) paragraphs
           in Inr (''<div class="attachment-text">'' @ formatted @ ''</div>'')))\<close>

definition render_csv :: "runtime \<Rightarrow> Attachment \<Rightarrow> exn + string" where
  \<open>render_csv rt a =
     (case render_csv_decode rt (raw_content a) of
        Inl e \<Rightarrow> Inl e
      | Inr content \<Rightarrow>
          (case csv_reader rt content of
             Inl e \<Rightarrow> Inl e
           | Inr rows \<Rightarrow>
               (case rows of
                  [] \<Rightarrow> render_reference a
                | header # data \<Rightarrow>
                    Inr (concat
                      ([''<table class="attachment-csv">'', ''<thead><tr>'']
                       @ map (\<lambda>cell. ''<th>'' @ html_escape cell @ ''</th>'') header
                       @ [''</tr></thead>'']
                       @ (if data \<noteq> [] then
                            [''<tbody>'']
                            @ concat (map (\<lambda>row.
                                [''<tr>'']
                                @ map (\<lambda>cell. ''<td>'' @ html_escape cell @ ''</td>'') row
                                @ [''</tr>'']) data)
                            @ [''</tbody>'']
                          else [])
                       @ [''</table>''])))))\<close>

definition render_image :: "runtime \<Rightarrow> Attachment \<Rightarrow> exn + string" where
  \<open>render_image rt a =
     (let b64_content = b64encode rt (raw_content a);
          mime = mime_type a;
          fname = html_escape (filename a)
      in Inr (''<img src="data:'' @ mime @ '';base64,'' @ b64_content @ ''" ''
              @ ''alt="'' @ fname @ ''" class="attachment-image" />''))\<close>

text \<open>
  The body of the \<open>try\<close> in \<open>render_attachment\<close>: the renderer chosen by MIME type or file
  name, and the content-type tag that is set once it has returned.
\<close>

definition tagged :: "exn + string \<Rightarrow> string \<Rightarrow> exn + string \<times> string" where
  "tagged r tag = (case r of Inl e \<Rightarrow> Inl e | Inr html_content \<Rightarrow> Inr (html_content, tag))"

definition render_dispatch :: "runtime \<Rightarrow> Attachment \<Rightarrow> exn + string \<times> string" where
  "render_dispatch rt a =
     (let mime = lower (mime_type a);
          fname = lower (filename a)
      in if mime = ''text/csv'' \<or> suffix ''.csv'' fname then tagged (render_csv rt a) ''table''
         else if mime = ''text/html'' \<or> suffix ''.html'' fname \<or> suffix ''.htm'' fname then
           tagged (render_html rt a) ''html''
         else if mime = ''application/vnd.openxmlformats-officedocument.wordprocessingml.document''
                 \<or> suffix ''.docx'' fname then
           tagged (render_docx rt a) ''docx''
         else if mime = ''application/vnd.openxmlformats-officedocument.spreadsheetml.sheet''
                 \<or> suffix ''.xlsx'' fname then
           tagged (render_xlsx rt a) ''xlsx''
         else if prefix ''text/'' mime then tagged (render_text rt a) ''text''
         else if prefix ''image/'' mime then tagged (render_image rt a) ''image''
         else tagged (render_reference a) ''reference'')"

text \<open>
  \<open>render_attachment\<close> returns the HTML and the attachment as it has been updated; \<open>Inl\<close>
  is an exception that reaches the caller.
\<close>

definition render_attachment :: "runtime \<Rightarrow> Attachment \<Rightarrow> exn + string \<times> Attachment" where
  "render_attachment rt a =
     (case render_dispatch rt a of
        Inr (html_content, tag) \<Rightarrow>
          Inr (html_content, a\<lparr>content_type := Some tag, rendered_content := Some html_content\<rparr>)
      | Inl e \<Rightarrow>
          (let a1 = a\<lparr>error := Some (exn_str e)\<rparr>
           in case render_reference a1 of
                Inl e' \<Rightarrow> Inl e'
              | Inr html_content \<Rightarrow>
                  Inr (html_content,
                       a1\<lparr>content_type := Some ''reference'',
                          rendered_content := Some html_content\<rparr>)))"

section \<open>Continuation header stamper\<close>

text \<open>
  A page of a PDF: its own content, and the overlays that \<open>merge_page\<close> has composited
  onto it. An overlay is the one-line header that \<open>create_header_overlay\<close> draws: text, font,
  size, gray level and position on a letter page (612 by 792 points).
\<close>

record overlay =
  ov_text :: string
  ov_font :: string
  ov_size :: int
  ov_gray :: rat
  ov_x :: int
  ov_y :: int

record page =
  page_content :: bytes
  merged :: "overlay list"

definition create_header_overlay :: "string \<Rightarrow> nat \<Rightarrow> nat \<Rightarrow> overlay" where
  "create_header_overlay subj total_pages page_num =
     (let max_subject_len = 60;
          display_subject = (if length subj > max_subject_len
                             then take max_subject_len subj @ ''...'' else subj);
          header_text = ''Subject: '' @ display_subject @ '' (continued - page ''
                        @ str_nat page_num @ '' of '' @ str_nat total_pages @ '')''
      in \<lparr>ov_text = header_text, ov_font = ''Helvetica'', ov_size = 8, ov_gray = 4 / 10,
          ov_x = 54, ov_y = 792 - 36\<rparr>)"

definition merge_page :: "page \<Rightarrow> overlay \<Rightarrow> page" where
  "merge_page p h = p\<lparr>merged := merged p @ [h]\<rparr>"

text \<open>The loop \<open>for i, page in enumerate(reader.pages)\<close>, from index \<open>i\<close> on.\<close>

fun stamp_pages :: "string \<Rightarrow> nat \<Rightarrow> nat \<Rightarrow> page list \<Rightarrow> page list" where
  "stamp_pages subj total_pages i [] = []"
| "stamp_pages subj total_pages i (p # ps) =
     (if i = 0 then p else merge_page p (create_header_overlay subj total_pages (i + 1)))
     # stamp_pages subj total_pages (Suc i) ps"

text \<open>
  \<open>add_continuation_headers\<close>, from the pages read from \<open>input_pdf\<close> to the pages written to
  \<open>output_pdf\<close>.
\<close>

definition add_continuation_headers :: "page list \<Rightarrow> string \<Rightarrow> 'a \<Rightarrow> page list" where
  "add_continuation_headers pages subj from_address =
     (let total_pages = length pages
      in if total_pages \<le> 1 then pages else stamp_pages subj total_pages 0 pages)"

section \<open>Email renderer\<close>

text \<open>
  Further \<open>strftime\<close> directives in the C locale: \<open>%A\<close> and \<open>%a\<close> (name of the weekday, full
  and abbreviated; \<open>date.weekday()\<close> counts from Monday), \<open>%d\<close>, \<open>%I\<close> (hour on the 12-hour
  clock), \<open>%M\<close> and \<open>%p\<close>.
\<close>

definition day_names :: "string list" where
  "day_names = [''Monday'', ''Tuesday'', ''Wednesday'', ''Thursday'', ''Friday'', ''Saturday'',
     ''Sunday'']"

definition weekday :: "datetime \<Rightarrow> int" where
  "weekday d = (ymd2ord (year d) (month d) (day d) + 6) mod 7"

definition strftime_A :: "datetime \<Rightarrow> string" where
  "strftime_A d = day_names ! nat (weekday d)"

definition strftime_a :: "datetime \<Rightarrow> string" where
  "strftime_a d = take 3 (strftime_A d)"

definition strftime_d :: "datetime \<Rightarrow> string" where
  "strftime_d d = zfill 2 (str_int (day d))"

definition strftime_I :: "datetime \<Rightarrow> string" where
  "strftime_I d = zfill 2 (str_int (if hour d mod 12 = 0 then 12 else hour d mod 12))"

definition strftime_M :: "datetime \<Rightarrow> string" where
  "strftime_M d = zfill 2 (str_int (minute d))"

definition strftime_p :: "datetime \<Rightarrow> string" where
  "strftime_p d = (if hour d < 12 then ''AM'' else ''PM'')"

text \<open>\<open>date.strftime("%A, %B %d, %Y at %I:%M %p")\<close>, and the same with \<open>%a\<close>.\<close>

definition strftime_long :: "datetime \<Rightarrow> string" where
  "strftime_long d =
     strftime_A d @ '', '' @ strftime_B d @ '' '' @ strftime_d d @ '', '' @ strftime_Y d
     @ '' at '' @ strftime_I d @ '':'' @ strftime_M d @ '' '' @ strftime_p d"

definition strftime_short :: "datetime \<Rightarrow> string" where
  "strftime_short d =
     strftime_a d @ '', '' @ strftime_B d @ '' '' @ strftime_d d @ '', '' @ strftime_Y d
     @ '' at '' @ strftime_I d @ '':'' @ strftime_M d @ '' '' @ strftime_p d"

definition render_header_field :: "string \<Rightarrow> string \<Rightarrow> string" where
  \<open>render_header_field label v =
     ''<div class="header-field">''
     @ ''<span class="header-label">'' @ label @ '':</span> ''
     @ ''<span class="header-value">'' @ v @ ''</span>''
     @ ''</div>''\<close>

text \<open>
  A header line with \<open>html.escape(v)\<close> as its value: \<open>html.escape\<close> starts with
  \<open>v.replace\<close>, which a \<open>Header\<close> object does not have.
\<close>

definition escaped_field :: "string \<Rightarrow> header_value \<Rightarrow> exn + string list" where
  "escaped_field label v =
     (case v of
        Str s \<Rightarrow> Inr [render_header_field label (html_escape s)]
      | Header h \<Rightarrow> Inl (no_attribute ''replace''))"

text \<open>
  An optional header line: present when the field is set and true (a \<open>str\<close> that is not
  empty, or a \<open>Header\<close> object).
\<close>

definition optional_field :: "string \<Rightarrow> header_value option \<Rightarrow> exn + string list" where
  "optional_field label v =
     (case v of
        None \<Rightarrow> Inr []
      | Some (Str s) \<Rightarrow> if s = [] then Inr [] else escaped_field label (Str s)
      | Some (Header h) \<Rightarrow> escaped_field label (Header h))"

text \<open>The parts appended one after the other, up to the first step that raises.\<close>

fun appended :: "(exn + string list) list \<Rightarrow> exn + string list" where
  "appended [] = Inr []"
| "appended (step # steps) =
     (case step of
        Inl e \<Rightarrow> Inl e
      | Inr parts \<Rightarrow>
          (case appended steps of Inl e \<Rightarrow> Inl e | Inr later \<Rightarrow> Inr (parts @ later)))"

definition render_email_header :: "Email \<Rightarrow> exn + string" where
  \<open>render_email_header email =
     (case appended
        [Inr [''<div class="email-header">''],
         Inr [render_header_field ''Date'' (strftime_long (date email))],
         escaped_field ''From'' (from_addr email),
         escaped_field ''To'' (to_addr email),
         optional_field ''CC'' (cc_addr email),
         optional_field ''BCC'' (bcc_addr email),
         escaped_field ''Subject'' (subject email),
         escaped_field ''Message-ID'' (message_id email),
         optional_field ''In-Reply-To'' (in_reply_to email),
         Inr (case references email of
                None \<Rightarrow> []
              | Some refs \<Rightarrow>
                  if refs = [] then []
                  else [render_header_field ''References'' (html_escape (join '' '' refs))]),
         optional_field ''X-Mailer'' (x_mailer email),
         Inr [''</div>'']] of
        Inl e \<Rightarrow> Inl e
      | Inr parts \<Rightarrow> Inr (concat parts))\<close>

definition render_email_body :: "Email \<Rightarrow> string" where
  \<open>render_email_body email =
     concat
       ([''<div class="email-body">'']
        @ (if body_html email \<noteq> None \<and> body_html email \<noteq> Some [] then
             [''<div class="html-body">'' @ the (body_html email) @ ''</div>'']
           else if body_text email \<noteq> [] then
             (let escaped = html_escape (body_text email);
                  paragraphs = split_blank escaped [];
                  formatted = paragraphs_html (\<lambda>para. para) paragraphs
              in [''<div class="plaintext-body">'' @ formatted @ ''</div>''])
           else [])
        @ [''</div>''])\<close>

text \<open>
  The loop of \<open>_render_attachments_section\<close>: the parts appended for each attachment, and the
  attachments as \<open>render_attachment\<close> has updated them.
\<close>

fun render_attachment_items ::
  "runtime \<Rightarrow> Attachment list \<Rightarrow> exn + string list \<times> Attachment list" where
  \<open>render_attachment_items rt [] = Inr ([], [])\<close>
| \<open>render_attachment_items rt (a # rest) =
     (case format_size_for_display a of
        Inl e \<Rightarrow> Inl e
      | Inr size_str \<Rightarrow>
          (case render_attachment rt a of
             Inl e \<Rightarrow> Inl e
           | Inr (rendered, a') \<Rightarrow>
               (case render_attachment_items rt rest of
                  Inl e \<Rightarrow> Inl e
                | Inr (parts, rest') \<Rightarrow>
                    Inr ([''<div class="attachment-item">'',
                          ''<div class="attachment-name">'' @ html_escape (filename a) @ '' ''
                            @ ''<small>('' @ size_str @ '')</small>'' @ ''</div>'',
                          ''<div class="attachment-content">'' @ rendered @ ''</div>'',
                          ''</div>''] @ parts,
                         a' # rest'))))\<close>

definition render_attachments_section ::
  "runtime \<Rightarrow> Attachment list \<Rightarrow> exn + string \<times> Attachment list" where
  \<open>render_attachments_section rt atts =
     (case render_attachment_items rt atts of
        Inl e \<Rightarrow> Inl e
      | Inr (parts, atts') \<Rightarrow>
          Inr (concat ([''<div class="attachments-section">'',
                        ''<h3 class="attachments-header">Attachments</h3>'']
                       @ parts @ [''</div>'']),
               atts'))\<close>

text \<open>
  \<open>render_email_to_html\<close> returns the HTML and the email with its attachments as rendering
  has updated them.
\<close>

definition render_email_to_html :: "runtime \<Rightarrow> Email \<Rightarrow> exn + string \<times> Email" where
  \<open>render_email_to_html rt email =
     (case render_email_header email of
        Inl e \<Rightarrow> Inl e
      | Inr header \<Rightarrow>
          (let head = [''<div class="email-message">'', header, render_email_body email]
           in if attachments email \<noteq> [] then
                (case render_attachments_section rt (attachments email) of
                   Inl e \<Rightarrow> Inl e
                 | Inr (section, atts') \<Rightarrow>
                     Inr (concat (head @ [section, ''</div>'']), email\<lparr>attachments := atts'\<rparr>))
              else Inr (concat (head @ [''</div>'']), email)))\<close>

section \<open>Orchestrator\<close>

record AttachmentErrorInfo =
  email_subject :: header_value
  email_date :: string
  email_from :: header_value
  attachment_filename :: string
  info_mime_type :: string
  file_size :: string
  error_type :: string
  error_message :: string

record ConversionResult =
  success :: bool
  pdfs_created :: nat
  emails_processed :: nat
  errors :: "string list"
  attachment_errors :: "AttachmentErrorInfo list"
  created_files :: "string list"

text \<open>
  The world around one conversion, as parameters:
  \<^item> \<open>mkdir\<close>: \<open>output_dir.mkdir(parents=True, exist_ok=True)\<close>, raising or not;
  \<^item> \<open>mailboxes\<close>: the mailbox files;
  \<^item> \<open>temporary_directory\<close>: entering \<open>tempfile.TemporaryDirectory()\<close> for the group of
    the given index gives a path or raises; \<open>cleanup\<close>: leaving that block, raising or not;
  \<^item> \<open>generate_pdf\<close>: the function of that name, for an HTML fragment, an output path and
    an image directory: what the PDF backend and the file system make of them, the pages of
    the file written or the exception raised;
  \<^item> \<open>stamp_failure\<close>: reading the input of \<open>add_continuation_headers\<close>, drawing the
    overlays or writing its output raises;
  \<^item> \<open>merge_failure\<close>: reading the inputs of \<open>merge_pdfs\<close> or writing its output raises.
  The progress callback returns normally (\<open>None\<close>) or raises.
\<close>

record env =
  mkdir :: "string \<Rightarrow> exn option"
  mailboxes :: mbox_files
  temporary_directory :: "nat \<Rightarrow> exn + string"
  cleanup :: "string \<Rightarrow> exn option"
  generate_pdf :: "string \<Rightarrow> string \<Rightarrow> string \<Rightarrow> exn + page list"
  stamp_failure :: "string \<Rightarrow> string \<Rightarrow> exn option"
  merge_failure :: "string list \<Rightarrow> string \<Rightarrow> exn option"

type_synonym progress_callback = "int \<Rightarrow> int \<Rightarrow> string \<Rightarrow> exn option"

text \<open>\<open>if progress_callback: progress_callback(current, 100, message)\<close>\<close>

definition report :: "progress_callback option \<Rightarrow> int \<Rightarrow> string \<Rightarrow> exn option" where
  "report cb current msg = (case cb of None \<Rightarrow> None | Some f \<Rightarrow> f current 100 msg)"

text \<open>\<open>directory / name\<close> on paths, for a directory written without a trailing slash.\<close>

definition path_join :: "string \<Rightarrow> string \<Rightarrow> string" where
  "path_join dir name = dir @ ''/'' @ name"

text \<open>
  \<open>add_continuation_headers\<close> and \<open>merge_pdfs\<close> on files. The subject is what the email
  holds. On a \<open>Header\<close> object, \<open>len(subject)\<close> raises when the first overlay is made,
  which happens for an input of two or more pages; the converter does not get there, since
  rendering such an email has raised before.
\<close>

definition add_continuation_headers_file ::
  "env \<Rightarrow> page list \<Rightarrow> string \<Rightarrow> string \<Rightarrow> header_value \<Rightarrow> header_value \<Rightarrow> exn + page list" where
  "add_continuation_headers_file ev pages input_pdf output_pdf subj from_address =
     (case stamp_failure ev input_pdf output_pdf of
        Some e \<Rightarrow> Inl e
      | None \<Rightarrow>
          (case subj of
             Str s \<Rightarrow> Inr (add_continuation_headers pages s from_address)
           | Header h \<Rightarrow> if length pages \<le> 1 then Inr pages else Inl no_len))"

definition merge_pdfs :: "env \<Rightarrow> (string \<times> page list) list \<Rightarrow> string \<Rightarrow> exn + page list" where
  "merge_pdfs ev pdfs output_path =
     (case merge_failure ev (map fst pdfs) output_path of
        Some e \<Rightarrow> Inl e
      | None \<Rightarrow> Inr (concat (map snd pdfs)))"

text \<open>
  The loop over \<open>email.attachments\<close> that collects attachment issues: the records appended,
  and the exception that ended the loop, if any.
\<close>

fun track_attachments :: "Email \<Rightarrow> Attachment list \<Rightarrow> AttachmentErrorInfo list \<times> exn option" where
  "track_attachments email [] = ([], None)"
| "track_attachments email (a # rest) =
     (if error a \<noteq> None \<and> error a \<noteq> Some [] then
        (case format_size_for_display a of
           Inl e \<Rightarrow> ([], Some e)
         | Inr size_str \<Rightarrow>
             (case track_attachments email rest of (infos, r) \<Rightarrow>
                (\<lparr>email_subject = subject email, email_date = strftime_short (date email),
                  email_from = from_addr email, attachment_filename = filename a,
                  info_mime_type = mime_type a, file_size = size_str,
                  error_type = ''rendering_failed'',
                  error_message = ''Could not render attachment: '' @ the (error a)\<rparr> # infos, r)))
      else if content_type a = Some ''reference'' then
        (case format_size_for_display a of
           Inl e \<Rightarrow> ([], Some e)
         | Inr size_str \<Rightarrow>
             (case track_attachments email rest of (infos, r) \<Rightarrow>
                (\<lparr>email_subject = subject email, email_date = strftime_short (date email),
                  email_from = from_addr email, attachment_filename = filename a,
                  info_mime_type = mime_type a, file_size = size_str,
                  error_type = ''unsupported_type'',
                  error_message = ''This file type cannot be rendered in the PDF.''\<rparr> # infos, r)))
      else track_attachments email rest)"

text \<open>
  The body of the \<open>try\<close> for the email of index \<open>j\<close> of a group: the attachment records it
  appends, and either the exception it raises or the per-email PDF it produces (path and
  pages).
\<close>

definition process_email ::
  "runtime \<Rightarrow> env \<Rightarrow> string \<Rightarrow> nat \<Rightarrow> Email
     \<Rightarrow> AttachmentErrorInfo list \<times> (exn + string \<times> page list)" where
  "process_email rt ev temp_path j email =
     (case render_email_to_html rt email of
        Inl e \<Rightarrow> ([], Inl e)
      | Inr (email_html, email') \<Rightarrow>
          (case track_attachments email' (attachments email') of
             (infos, Some e) \<Rightarrow> (infos, Inl e)
           | (infos, None) \<Rightarrow>
               (let stem = ''email_'' @ zfill 4 (str_nat j);
                    raw_pdf = path_join temp_path (stem @ ''_raw.pdf'');
                    images_dir = path_join temp_path (stem @ ''_images'')
                in case generate_pdf ev email_html raw_pdf images_dir of
                     Inl e \<Rightarrow> (infos, Inl e)
                   | Inr raw_pages \<Rightarrow>
                       (let final_pdf = path_join temp_path (stem @ ''.pdf'')
                        in case add_continuation_headers_file ev raw_pages raw_pdf final_pdf
                                  (subject email') (from_addr email') of
                             Inl e \<Rightarrow> (infos, Inl e)
                           | Inr final_pages \<Rightarrow> (infos, Inr (final_pdf, final_pages))))))"

text \<open>
  The loop over the emails of a group, from index \<open>j\<close> on, on the state
  \<open>(errors, attachment_errors, email_pdfs)\<close>.
\<close>

fun process_emails ::
  "runtime \<Rightarrow> env \<Rightarrow> string \<Rightarrow> nat \<Rightarrow> Email list
     \<Rightarrow> string list \<times> AttachmentErrorInfo list \<times> (string \<times> page list) list
     \<Rightarrow> string list \<times> AttachmentErrorInfo list \<times> (string \<times> page list) list" where
  "process_emails rt ev temp_path j [] st = st"
| "process_emails rt ev temp_path j (email # rest) (errs, infos, email_pdfs) =
     (case process_email rt ev temp_path j email of
        (new_infos, Inl e) \<Rightarrow>
          process_emails rt ev temp_path (Suc j) rest
            (errs @ [''Failed to process email '' @ sq @ str_value rt (subject email) @ sq @ '': ''
                     @ exn_str e],
             infos @ new_infos, email_pdfs)
      | (new_infos, Inr pdf) \<Rightarrow>
          process_emails rt ev temp_path (Suc j) rest (errs, infos @ new_infos, email_pdfs @ [pdf]))"

text \<open>
  The body of the loop over the groups, for the group of index \<open>i\<close>, on the state
  \<open>(errors, attachment_errors, created_files)\<close> and the files written to the output directory.
\<close>

type_synonym run_state =
  "string list \<times> AttachmentErrorInfo list \<times> string list \<times> (string \<times> page list) list"

definition group_progress :: "progress_callback option \<Rightarrow> nat \<Rightarrow> nat \<Rightarrow> string \<Rightarrow> exn option" where
  "group_progress cb i total_groups group_key =
     (case cb of
        None \<Rightarrow> None
      | Some f \<Rightarrow>
          (case int_truediv (int i) (int total_groups) of
             Inl e \<Rightarrow> Some e
           | Inr q \<Rightarrow>
               (let progress_pct = 20 + \<lfloor>float_mul q 75\<rfloor>
                in f progress_pct 100 (''Generating '' @ group_key @ ''.pdf...''))))"

definition process_group ::
  "runtime \<Rightarrow> env \<Rightarrow> progress_callback option \<Rightarrow> string \<Rightarrow> nat \<Rightarrow> nat
     \<Rightarrow> string \<times> Email list \<Rightarrow> run_state \<Rightarrow> exn + run_state" where
  "process_group rt ev cb output_dir total_groups i grp st =
     (case (grp, st) of ((group_key, group_emails), (errs, infos, created, written)) \<Rightarrow>
        (case group_progress cb i total_groups group_key of
           Some e \<Rightarrow> Inl e
         | None \<Rightarrow>
             (case temporary_directory ev i of
                Inl e \<Rightarrow> Inl e
              | Inr temp_path \<Rightarrow>
                  (case process_emails rt ev temp_path 0 group_emails (errs, infos, []) of
                     (errs', infos', email_pdfs) \<Rightarrow>
                       (let st' =
                          (if email_pdfs = [] then
                             (errs' @ [''No emails processed for group '' @ group_key],
                              infos', created, written)
                           else
                             (let pdf_path = path_join output_dir (group_key @ ''.pdf'')
                              in case merge_pdfs ev email_pdfs pdf_path of
                                   Inl e \<Rightarrow>
                                     (errs' @ [''Failed to merge PDFs for '' @ group_key @ '': ''
                                               @ exn_str e],
                                      infos', created, written)
                                 | Inr pages \<Rightarrow>
                                     (errs', infos', created @ [pdf_path],
                                      written @ [(pdf_path, pages)])))
                        in case cleanup ev temp_path of
                             Some e \<Rightarrow> Inl e
                           | None \<Rightarrow> Inr st')))))"

fun process_groups ::
  "runtime \<Rightarrow> env \<Rightarrow> progress_callback option \<Rightarrow> string \<Rightarrow> nat \<Rightarrow> nat
     \<Rightarrow> (string \<times> Email list) list \<Rightarrow> run_state \<Rightarrow> exn + run_state" where
  "process_groups rt ev cb output_dir total_groups i [] st = Inr st"
| "process_groups rt ev cb output_dir total_groups i (grp # rest) st =
     (case process_group rt ev cb output_dir total_groups i grp st of
        Inl e \<Rightarrow> Inl e
      | Inr st' \<Rightarrow> process_groups rt ev cb output_dir total_groups (Suc i) rest st')"

text \<open>
  \<open>convert_mbox_to_pdfs\<close>: \<open>Inl\<close> is an exception that reaches the caller; \<open>Inr\<close> holds the
  \<open>ConversionResult\<close> returned and the PDF files written to the output directory.
\<close>

definition convert_mbox_to_pdfs ::
  "runtime \<Rightarrow> env \<Rightarrow> string list \<Rightarrow> string \<Rightarrow> string \<Rightarrow> progress_callback option
     \<Rightarrow> exn + ConversionResult \<times> (string \<times> page list) list" where
  "convert_mbox_to_pdfs rt ev mbox_paths output_dir grouping_strategy cb =
     (case mkdir ev output_dir of
        Some e \<Rightarrow> Inl e
      | None \<Rightarrow>
     (case report cb 0 ''Parsing mbox files...'' of
        Some e \<Rightarrow> Inl e
      | None \<Rightarrow>
     (case merge_and_deduplicate rt (mailboxes ev) mbox_paths of
        Inl e \<Rightarrow>
          Inr (\<lparr>success = False, pdfs_created = 0, emails_processed = 0,
                errors = [''Failed to parse mbox files: '' @ exn_str e],
                attachment_errors = [], created_files = []\<rparr>, [])
      | Inr emails \<Rightarrow>
          if emails = [] then
            Inr (\<lparr>success = True, pdfs_created = 0, emails_processed = 0,
                  errors = [''No emails found in the provided mbox files''],
                  attachment_errors = [], created_files = []\<rparr>, [])
          else
     (case report cb 10 (''Found '' @ str_nat (length emails) @ '' emails, grouping...'') of
        Some e \<Rightarrow> Inl e
      | None \<Rightarrow>
     (case group_emails_by_date emails grouping_strategy of
        Inl e \<Rightarrow> Inl e
      | Inr groups \<Rightarrow>
     (case report cb 20 (''Creating '' @ str_nat (length groups) @ '' PDF files...'') of
        Some e \<Rightarrow> Inl e
      | None \<Rightarrow>
     (case process_groups rt ev cb output_dir (length groups) 0 groups ([], [], [], []) of
        Inl e \<Rightarrow> Inl e
      | Inr (errs, infos, created, written) \<Rightarrow>
     (case report cb 100 ''Conversion complete'' of
        Some e \<Rightarrow> Inl e
      | None \<Rightarrow>
          Inr (\<lparr>success = (0 < length created), pdfs_created = length created,
                emails_processed = length emails, errors = errs,
                attachment_errors = infos, created_files = created\<rparr>, written)))))))))"

section \<open>The specification's own notions\<close>






text \<open>A list of emails is in ascending date order.\<close>

definition by_date :: "Email list \<Rightarrow> bool" where
  "by_date es = sorted (map (\<lambda>e. instant (date e)) es)"

text \<open>
  The two-step fallback of the specification: UTF-8 first, then Latin-1 with replacement of
  undecodable bytes.
\<close>

definition spec_two_step_decode :: "runtime \<Rightarrow> bytes \<Rightarrow> exn + string" where
  "spec_two_step_decode rt raw =
     (case bytes_decode rt ''utf-8'' Strict raw of
        Inr s \<Rightarrow> Inr s
      | Inl e \<Rightarrow> bytes_decode rt ''latin-1'' Replace raw)"

text \<open>
  The text of the continuation header on page \<open>n\<close> of \<open>total\<close>: the subject, cut to 60
  characters with \<open>...\<close> appended when it is longer.
\<close>

definition spec_header_text :: "string \<Rightarrow> nat \<Rightarrow> nat \<Rightarrow> string" where
  "spec_header_text subj n total_pages =
     ''Subject: '' @ (if 60 < length subj then take 60 subj @ ''...'' else subj)
     @ '' (continued - page '' @ str_nat n @ '' of '' @ str_nat total_pages @ '')''"

text \<open>
  The error entries that one group contributes to a conversion, said without the loops: for
  each email of the group in order, an entry when its processing raised; then one entry when
  no email of the group produced a PDF, or when merging the PDFs produced raised.
\<close>

definition spec_email_errors :: "runtime \<Rightarrow> env \<Rightarrow> string \<Rightarrow> nat \<Rightarrow> Email list \<Rightarrow> string list" where
  "spec_email_errors rt ev temp_path j es =
     concat (map (\<lambda>(n, email).
                    case snd (process_email rt ev temp_path n email) of
                      Inl e \<Rightarrow> [''Failed to process email '' @ sq @ str_value rt (subject email) @ sq
                                @ '': '' @ exn_str e]
                    | Inr pdf \<Rightarrow> [])
                 (enumerate j es))"

definition spec_email_pdfs ::
  "runtime \<Rightarrow> env \<Rightarrow> string \<Rightarrow> nat \<Rightarrow> Email list \<Rightarrow> (string \<times> page list) list" where
  "spec_email_pdfs rt ev temp_path j es =
     concat (map (\<lambda>(n, email).
                    case snd (process_email rt ev temp_path n email) of
                      Inl e \<Rightarrow> []
                    | Inr pdf \<Rightarrow> [pdf])
                 (enumerate j es))"

definition spec_group_errors ::
  "runtime \<Rightarrow> env \<Rightarrow> string \<Rightarrow> string \<Rightarrow> string \<times> Email list \<Rightarrow> string list" where
  "spec_group_errors rt ev output_dir temp_path grp =
     spec_email_errors rt ev temp_path 0 (snd grp)
     @ (if spec_email_pdfs rt ev temp_path 0 (snd grp) = [] then
          [''No emails processed for group '' @ fst grp]
        else (case merge_pdfs ev (spec_email_pdfs rt ev temp_path 0 (snd grp))
                     (path_join output_dir (fst grp @ ''.pdf'')) of
                Inl e \<Rightarrow> [''Failed to merge PDFs for '' @ fst grp @ '': '' @ exn_str e]
              | Inr pages \<Rightarrow> []))"

text \<open>A progress callback that never raises, if there is one.\<close>

definition quiet :: "progress_callback option \<Rightarrow> bool" where
  "quiet cb = (case cb of None \<Rightarrow> True | Some f \<Rightarrow> \<forall>c t m. f c t m = None)"


section \<open>Concrete inputs\<close>

text \<open>
  A runtime that agrees with Python and the libraries on the inputs used below: it decodes
  ASCII bytes and rejects any other byte as UTF-8, knows no further codec, parses the two
  date lines of the test mailbox, and finds no Word or Excel document in the bytes it is
  given.
\<close>

definition jan4 :: datetime where
  "jan4 = \<lparr>year = 2008, month = 1, day = 4, hour = 10, minute = 30, second = 0,
           microsecond = 0, utcoffset = Some (- 28800)\<rparr>"

definition jan5 :: datetime where
  "jan5 = \<lparr>year = 2008, month = 1, day = 5, hour = 9, minute = 15, second = 0,
           microsecond = 0, utcoffset = Some (- 28800)\<rparr>"


definition jan4_line :: string where
  "jan4_line = ''Fri, 04 Jan 2008 10:30:00 -0800''"

definition jan5_line :: string where
  "jan5_line = ''Sat, 05 Jan 2008 09:15:00 -0800''"

definition rt0 :: runtime where
  "rt0 = \<lparr>
     utf8_strict = (\<lambda>bs. if list_all (\<lambda>b. b < 128) bs then Inr (latin1_decode bs)
                          else Inl ''invalid start byte''),
     utf8_replace = (\<lambda>bs. map (\<lambda>b. if b < 128 then char_of (unat b) else CHR ''?'') bs),
     other_codec = (\<lambda>name bs. Inl (Exn LookupError (''unknown encoding: '' @ name))),
     parsedate_to_datetime =
       (\<lambda>s. if s = jan4_line then Inr jan4 else if s = jan5_line then Inr jan5
             else Inl (Exn ValueError ''Invalid date value or format'')),
     header_str = (\<lambda>h. h),
     csv_reader = (\<lambda>s. Inr (if s = '''' then [] else [[s]])),
     bleach_clean = (\<lambda>s. Inr s),
     docx_paragraphs = (\<lambda>bs. Inl (Exn OtherException ''File is not a zip file'')),
     load_workbook = (\<lambda>bs. Inl (Exn OtherException ''File is not a zip file'')),
     b64encode = (\<lambda>bs. '''')\<rparr>"

text \<open>
  Messages of a mailbox: plain-text messages from Alice to Bob with the body \<open>Hello\<close>,
  with or without a \<open>Message-ID\<close> field, and the emails parsed from them.
\<close>

definition hello :: bytes where
  "hello = [0x48, 0x65, 0x6C, 0x6C, 0x6F]"

definition fields_of :: "string option \<Rightarrow> string \<Rightarrow> string \<Rightarrow> (string \<times> string) list" where
  "fields_of mid subj date_line =
     (case mid of None \<Rightarrow> [] | Some i \<Rightarrow> [(''Message-ID'', i)])
     @ [(''From'', ''alice@example.com''), (''To'', ''bob@example.com''),
        (''Subject'', subj), (''Date'', date_line)]"

definition message_of :: "string option \<Rightarrow> string \<Rightarrow> string \<Rightarrow> message" where
  "message_of mid subj date_line =
     Message (fields_of mid subj date_line) ''text/plain'' None None (Some hello) False []"

definition mail_of :: "string option \<Rightarrow> string \<Rightarrow> string \<Rightarrow> datetime \<Rightarrow> Email" where
  "mail_of mid subj date_line d =
     \<lparr>message_id = Str (case mid of None \<Rightarrow> '''' | Some i \<Rightarrow> i),
      from_addr = Str ''alice@example.com'', to_addr = Str ''bob@example.com'',
      date = d, subject = Str subj, body_text = ''Hello'', body_html = None, cc_addr = None,
      bcc_addr = None, in_reply_to = None, references = None, attachments = [],
      headers = map (\<lambda>(k, v). (k, Str v)) (fields_of mid subj date_line), x_mailer = None\<rparr>"

definition msg1 :: message where
  "msg1 = message_of (Some ''<one@example.com>'') ''First'' jan4_line"

definition msg2 :: message where
  "msg2 = message_of (Some ''<two@example.com>'') ''Second'' jan5_line"

definition mail1 :: Email where
  "mail1 = mail_of (Some ''<one@example.com>'') ''First'' jan4_line jan4"

definition mail2 :: Email where
  "mail2 = mail_of (Some ''<two@example.com>'') ''Second'' jan5_line jan5"

text \<open>Two messages without a \<open>Message-ID\<close> field.\<close>

definition anon_msg4 :: message where
  "anon_msg4 = message_of None ''Unsigned'' jan4_line"

definition anon_msg5 :: message where
  "anon_msg5 = message_of None ''Unsigned again'' jan5_line"

definition anon_mail4 :: Email where
  "anon_mail4 = mail_of None ''Unsigned'' jan4_line jan4"

definition anon_mail5 :: Email where
  "anon_mail5 = mail_of None ''Unsigned again'' jan5_line jan5"

text \<open>
  A message whose \<open>Message-ID\<close> field holds the byte \<open>0xE9\<close>, as a mail program that
  writes Latin-1 into its header fields produces it.
\<close>

definition raw_id :: string where
  "raw_id = ''<caf'' @ [CHR 0xE9] @ ''@example.com>''"

definition raw_msg :: message where
  "raw_msg = message_of (Some raw_id) ''Raw'' jan4_line"


text \<open>Mailbox files given as a list of paths with their messages.\<close>

definition files :: "(string \<times> message list) list \<Rightarrow> mbox_files" where
  "files fl = (\<lambda>p. map_option Inr (map_of fl p))"

definition takeout :: mbox_files where
  "takeout = files [(''All mail.mbox'', [msg2, anon_msg5, msg1]),
                    (''Inbox.mbox'', [anon_msg4, msg1])]"


text \<open>
  Attachments: a file named as a Word document whose bytes are no such document, and an
  attachment record whose size field is \<open>2 ^ 1034\<close>.
\<close>

definition broken_docx :: Attachment where
  "broken_docx =
     \<lparr>filename = ''report.docx'',
      mime_type = ''application/vnd.openxmlformats-officedocument.wordprocessingml.document'',
      size_bytes = 5, raw_content = hello, rendered_content = None, content_type = None,
      error = None\<rparr>"


text \<open>A PDF of three pages and a subject of 66 characters.\<close>

definition three_pages :: "page list" where
  "three_pages = [\<lparr>page_content = [1], merged = []\<rparr>, \<lparr>page_content = [2], merged = []\<rparr>,
                  \<lparr>page_content = [3], merged = []\<rparr>]"

definition long_subject :: string where
  "long_subject = ''Quarterly report: revenue, costs and staffing in the northern region''"

text \<open>
  A world in which nothing fails: the output directory and the temporary directories can be
  made, the mailbox files are those of the example, and every PDF step succeeds (the backend
  renders each email on one page).
\<close>

definition env0 :: env where
  "env0 = \<lparr>
     mkdir = (\<lambda>dir. None),
     mailboxes = takeout,
     temporary_directory = (\<lambda>i. Inr (''/tmp/conv'' @ str_nat i)),
     cleanup = (\<lambda>dir. None),
     generate_pdf = (\<lambda>html_content output_path images. Inr [\<lparr>page_content = [1], merged = []\<rparr>]),
     stamp_failure = (\<lambda>input_pdf output_pdf. None),
     merge_failure = (\<lambda>inputs output_path. None)\<rparr>"


section \<open>Auxiliary facts\<close>

subsection \<open>Decimal numerals\<close>

lemma str_nat_digit: "n < 10 \<Longrightarrow> str_nat n = [digit_char n]"
  by (simp add: str_nat.simps)

lemma str_nat_step: "10 \<le> n \<Longrightarrow> str_nat n = str_nat (n div 10) @ [digit_char (n mod 10)]"
  by (subst str_nat.simps) simp

lemma str_nat_two:
  "10 \<le> n \<Longrightarrow> n < 100 \<Longrightarrow> str_nat n = [digit_char (n div 10), digit_char (n mod 10)]"
  by (simp add: str_nat_step str_nat_digit)

lemma str_nat_four:
  assumes "1000 \<le> n" "n < 10000"
  shows "str_nat n = [digit_char (n div 1000 mod 10), digit_char (n div 100 mod 10),
                      digit_char (n div 10 mod 10), digit_char (n mod 10)]"
proof -
  have h: "n div 10 div 10 = n div 100" "n div 100 div 10 = n div 1000"
    using div_mult2_eq [of n 10 10] div_mult2_eq [of n 100 10] by simp_all
  have a: "str_nat n = str_nat (n div 10) @ [digit_char (n mod 10)]"
    using assms by (simp add: str_nat_step)
  have b: "str_nat (n div 10) = str_nat (n div 100) @ [digit_char (n div 10 mod 10)]"
    using assms str_nat_step [of "n div 10"] by (simp add: h)
  have c: "str_nat (n div 100) = [digit_char (n div 1000), digit_char (n div 100 mod 10)]"
    using assms str_nat_two [of "n div 100"] by (simp add: h)
  have d: "n div 1000 mod 10 = n div 1000" using assms by simp
  show ?thesis by (simp add: a b c d)
qed






subsection \<open>Months\<close>





subsection \<open>Sorting by date\<close>

lemma sort_by_date_Inl: "sort_by_date es = Inl e \<Longrightarrow> exn_class e = TypeError"
  by (auto simp: sort_by_date_def split: if_splits)

lemma sort_by_date_Inr:
  "sort_by_date es = Inr es' \<Longrightarrow> es' = sort_key (\<lambda>e. instant (date e)) es"
  by (auto simp: sort_by_date_def split: if_splits)

lemma sort_by_date_comparable:
  "comparable es \<Longrightarrow> sort_by_date es = Inr (sort_key (\<lambda>e. instant (date e)) es)"
  by (simp add: sort_by_date_def)

lemma comparable_subset: "comparable es \<Longrightarrow> set b \<subseteq> set es \<Longrightarrow> comparable b"
  by (auto simp: comparable_def list_all_iff)

subsection \<open>The grouping loop\<close>

lemma sort_groups_Inl: "sort_groups g = Inl e \<Longrightarrow> exn_class e = TypeError"
  by (induction g arbitrary: e rule: sort_groups.induct)
     (auto split: sum.splits dest: sort_by_date_Inl)

lemma sort_groups_Inr:
  "sort_groups g = Inr g' \<Longrightarrow>
     g' = map (\<lambda>(k, es). (k, sort_key (\<lambda>e. instant (date e)) es)) g"
  by (induction g arbitrary: g' rule: sort_groups.induct)
     (auto split: sum.splits dest: sort_by_date_Inr)

lemma sort_groups_total:
  "\<forall>b \<in> set (map snd g). comparable b \<Longrightarrow> \<exists>g'. sort_groups g = Inr g'"
  by (induction g rule: sort_groups.induct) (auto simp: sort_by_date_comparable)

lemma mset_groups_append:
  "mset (concat (map snd (groups_append k e g))) = add_mset e (mset (concat (map snd g)))"
  by (induction g rule: groups_append.induct) auto

lemma keys_groups_append:
  "set (map fst (groups_append k e g)) = insert k (set (map fst g))"
  by (induction g rule: groups_append.induct) auto

lemma distinct_groups_append:
  "distinct (map fst g) \<Longrightarrow> distinct (map fst (groups_append k e g))"
proof (induction g rule: groups_append.induct)
  case (1 k e)
  then show ?case by simp
next
  case (2 k e k' es g)
  then show ?case using keys_groups_append [of k e g] by auto
qed

lemma foldl_groups:
  "mset (concat (map snd (foldl (\<lambda>g e. groups_append (f e) e g) g0 es)))
     = mset (concat (map snd g0)) + mset es
   \<and> (distinct (map fst g0)
        \<longrightarrow> distinct (map fst (foldl (\<lambda>g e. groups_append (f e) e g) g0 es)))"
  by (induction es arbitrary: g0) (auto simp: mset_groups_append distinct_groups_append)

lemma mset_build_groups: "mset (concat (map snd (build_groups es s))) = mset es"
  using foldl_groups [of "\<lambda>e. get_group_key (date e) s" "[]" es] by (simp add: build_groups_def)

lemma distinct_build_groups: "distinct (map fst (build_groups es s))"
  using foldl_groups [of "\<lambda>e. get_group_key (date e) s" "[]" es] by (simp add: build_groups_def)

lemma mset_concat_perm:
  assumes "mset xss = mset yss"
  shows "mset (concat xss) = mset (concat yss)"
proof -
  have "mset (concat zss) = sum_mset (image_mset mset (mset zss))" for zss :: "'a list list"
    by (induction zss) auto
  then show ?thesis using assms by simp
qed

lemma bucket_subset:
  assumes "b \<in> set (map snd (build_groups es s))"
  shows "set b \<subseteq> set es"
proof -
  have "set b \<subseteq> set (concat (map snd (build_groups es s)))" using assms by auto
  also have "\<dots> = set es" using mset_build_groups [of es s] by (metis set_mset_mset)
  finally show ?thesis .
qed

lemma keys_sorted_buckets:
  "map fst (map (\<lambda>(k, es). (k, sort_key h es)) g) = map fst g"
  by (induction g) auto

lemma mset_sorted_buckets:
  "mset (concat (map snd (map (\<lambda>(k, es). (k, sort_key h es)) g))) = mset (concat (map snd g))"
  by (induction g) auto

lemma group_emails_by_date_total:
  assumes "s \<in> {''month'', ''quarter'', ''year''}" "comparable es"
  shows "\<exists>g. group_emails_by_date es s = Inr g"
proof -
  have "\<forall>b \<in> set (map snd (build_groups es s)). comparable b"
    using comparable_subset [OF assms(2)] bucket_subset by blast
  then obtain g' where "sort_groups (build_groups es s) = Inr g'"
    using sort_groups_total by blast
  then show ?thesis using assms(1) by (auto simp: group_emails_by_date_def)
qed
subsection \<open>The deduplication loop\<close>

lemma dedup_emails_append:
  "dedup_emails (xs @ ys) st
     = (case dedup_emails xs st of Inl e \<Rightarrow> Inl e | Inr st' \<Rightarrow> dedup_emails ys st')"
  by (induction xs st rule: dedup_emails.induct) (auto split: header_value.splits)

lemma dedup_emails_seen:
  "dedup_emails es (seen, uniq) = Inr (seen', uniq') \<Longrightarrow> seen' = seen \<union> message_id ` set es"
  by (induction es "(seen, uniq)" arbitrary: seen uniq rule: dedup_emails.induct)
     (auto split: header_value.splits if_splits)

text \<open>The loop returns only when every identifier it met is a string.\<close>

lemma dedup_emails_str:
  "dedup_emails es st = Inr st' \<Longrightarrow> e \<in> set es \<Longrightarrow> \<exists>i. message_id e = Str i"
  by (induction es st rule: dedup_emails.induct) (auto split: header_value.splits if_splits)

lemma dedup_emails_known:
  "message_id ` set es \<subseteq> seen \<Longrightarrow> \<forall>e \<in> set es. \<exists>i. message_id e = Str i \<Longrightarrow>
     dedup_emails es (seen, uniq) = Inr (seen, uniq)"
  by (induction es "(seen, uniq)" arbitrary: seen uniq rule: dedup_emails.induct)
     (auto split: header_value.splits)

lemma dedup_emails_twice:
  assumes "dedup_emails es st = Inr st'"
  shows "dedup_emails es st' = Inr st'"
proof -
  obtain seen uniq where st: "st = (seen, uniq)" by (cases st)
  obtain seen' uniq' where st': "st' = (seen', uniq')" by (cases st')
  have "message_id ` set es \<subseteq> seen'"
    using dedup_emails_seen [of es seen uniq seen' uniq'] assms st st' by auto
  moreover have "\<forall>e \<in> set es. \<exists>i. message_id e = Str i"
    using dedup_emails_str [OF assms] by blast
  ultimately show ?thesis unfolding st' by (rule dedup_emails_known)
qed

text \<open>
  The invariant of the loop: the identifiers seen are those of the emails kept, which are
  pairwise different; an email is added only at the first occurrence of its identifier.
\<close>

lemma dedup_emails_inv:
  assumes "seen = message_id ` set uniq" "distinct (map message_id uniq)"
    and "dedup_emails es (seen, uniq) = Inr (seen', uniq')"
  shows "distinct (map message_id uniq')
       \<and> message_id ` set uniq' = message_id ` set uniq \<union> message_id ` set es
       \<and> (\<exists>new. uniq' = uniq @ new \<and>
            (\<forall>e \<in> set new. \<exists>pre post. es = pre @ e # post
                \<and> message_id e \<notin> message_id ` set uniq \<union> message_id ` set pre))"
  using assms
proof (induction es "(seen, uniq)" arbitrary: seen uniq rule: dedup_emails.induct)
  case 1
  then show ?case by simp
next
  case (2 email emails seen uniq)
  from "2.prems"(3) obtain i where i: "message_id email = Str i"
    by (cases "message_id email") auto
  show ?case
  proof (cases "message_id email \<in> seen")
    case True
    with 2 i have r: "dedup_emails emails (seen, uniq) = Inr (seen', uniq')" by simp
    from 2(2)[OF i _ "2.prems"(1,2) r] True
    obtain new where d: "distinct (map message_id uniq')"
      and s: "message_id ` set uniq' = message_id ` set uniq \<union> message_id ` set emails"
      and n: "uniq' = uniq @ new"
      and f: "\<forall>e \<in> set new. \<exists>pre post. emails = pre @ e # post
                \<and> message_id e \<notin> message_id ` set uniq \<union> message_id ` set pre"
      by auto
    have "\<forall>e \<in> set new. \<exists>pre post. email # emails = pre @ e # post
                \<and> message_id e \<notin> message_id ` set uniq \<union> message_id ` set pre"
    proof
      fix e assume "e \<in> set new"
      with f obtain pre post where p: "emails = pre @ e # post"
        "message_id e \<notin> message_id ` set uniq \<union> message_id ` set pre" by blast
      have "message_id e \<noteq> message_id email" using p(2) True "2.prems"(1) by auto
      then have "email # emails = (email # pre) @ e # post
          \<and> message_id e \<notin> message_id ` set uniq \<union> message_id ` set (email # pre)"
        using p by auto
      then show "\<exists>pre post. email # emails = pre @ e # post
                \<and> message_id e \<notin> message_id ` set uniq \<union> message_id ` set pre" by blast
    qed
    with d s n True "2.prems"(1) show ?thesis by auto
  next
    case False
    with 2 i have r:
      "dedup_emails emails (insert (message_id email) seen, uniq @ [email]) = Inr (seen', uniq')"
      by simp
    have i1: "insert (message_id email) seen = message_id ` set (uniq @ [email])"
      using "2.prems"(1) by auto
    have i2: "distinct (map message_id (uniq @ [email]))"
      using "2.prems"(1,2) False by auto
    from 2(1)[OF i False i1 i2 r]
    obtain new where d: "distinct (map message_id uniq')"
      and s: "message_id ` set uniq'
                = message_id ` set (uniq @ [email]) \<union> message_id ` set emails"
      and n: "uniq' = (uniq @ [email]) @ new"
      and f: "\<forall>e \<in> set new. \<exists>pre post. emails = pre @ e # post
                \<and> message_id e \<notin> message_id ` set (uniq @ [email]) \<union> message_id ` set pre"
      by auto
    have "\<forall>e \<in> set (email # new). \<exists>pre post. email # emails = pre @ e # post
                \<and> message_id e \<notin> message_id ` set uniq \<union> message_id ` set pre"
    proof
      fix e assume e: "e \<in> set (email # new)"
      show "\<exists>pre post. email # emails = pre @ e # post
                \<and> message_id e \<notin> message_id ` set uniq \<union> message_id ` set pre"
      proof (cases "e = email")
        case True
        then have "email # emails = [] @ e # emails
            \<and> message_id e \<notin> message_id ` set uniq \<union> message_id ` set []"
          using False "2.prems"(1) by auto
        then show ?thesis by blast
      next
        case ne: False
        with e f obtain pre post where p: "emails = pre @ e # post"
          "message_id e \<notin> message_id ` set (uniq @ [email]) \<union> message_id ` set pre" by auto
        then have "email # emails = (email # pre) @ e # post
          \<and> message_id e \<notin> message_id ` set uniq \<union> message_id ` set (email # pre)"
          by auto
        then show ?thesis by blast
      qed
    qed
    moreover have "uniq' = uniq @ (email # new)" using n by simp
    ultimately show ?thesis using d s by auto
  qed
qed

lemma merge_files_Inr:
  "merge_files rt fs ps st = Inr st' \<Longrightarrow>
     \<exists>ess. map (parse_mbox rt fs) ps = map Inr ess \<and> dedup_emails (concat ess) st = Inr st'"
proof (induction ps arbitrary: st)
  case Nil
  then show ?case by simp
next
  case (Cons p ps)
  then obtain emails st1 where p: "parse_mbox rt fs p = Inr emails"
    and d: "dedup_emails emails st = Inr st1"
    and r: "merge_files rt fs ps st1 = Inr st'"
    by (auto split: sum.splits)
  from Cons.IH [OF r] obtain ess where
    e: "map (parse_mbox rt fs) ps = map Inr ess" "dedup_emails (concat ess) st1 = Inr st'"
    by blast
  have "map (parse_mbox rt fs) (p # ps) = map Inr (emails # ess)
      \<and> dedup_emails (concat (emails # ess)) st = Inr st'"
    using p d e by (simp add: dedup_emails_append)
  then show ?case by blast
qed

lemma merge_files_of_parsed:
  "map (parse_mbox rt fs) ps = map Inr ess \<Longrightarrow>
     merge_files rt fs ps st = dedup_emails (concat ess) st"
proof (induction ps arbitrary: st ess)
  case Nil
  then show ?case by simp
next
  case (Cons p ps)
  then obtain emails ess' where e: "ess = emails # ess'" "parse_mbox rt fs p = Inr emails"
    "map (parse_mbox rt fs) ps = map Inr ess'"
    by (cases ess) auto
  show ?case using Cons.IH [OF e(3)] e by (simp add: dedup_emails_append split: sum.splits)
qed

text \<open>What a returned merge is made of: the first occurrences, sorted.\<close>

lemma merge_and_deduplicate_Inr:
  assumes "merge_and_deduplicate rt fs paths = Inr out"
  obtains ess uniq where "map (parse_mbox rt fs) paths = map Inr ess"
    and "dedup_emails (concat ess) ({}, []) = Inr (message_id ` set uniq, uniq)"
    and "out = sort_key (\<lambda>e. instant (date e)) uniq"
    and "sort_by_date uniq = Inr out"
    and "distinct (map message_id uniq)"
    and "message_id ` set uniq = message_id ` set (concat ess)"
    and "\<forall>e \<in> set uniq. \<exists>pre post. concat ess = pre @ e # post
           \<and> message_id e \<notin> message_id ` set pre"
proof -
  from assms obtain seen uniq where m: "merge_files rt fs paths ({}, []) = Inr (seen, uniq)"
    and s: "sort_by_date uniq = Inr out"
    by (auto simp: merge_and_deduplicate_def split: sum.splits)
  from merge_files_Inr [OF m] obtain ess where
    e: "map (parse_mbox rt fs) paths = map Inr ess"
       "dedup_emails (concat ess) ({}, []) = Inr (seen, uniq)"
    by auto
  have inv: "distinct (map message_id uniq)
       \<and> message_id ` set uniq = message_id ` set (concat ess)
       \<and> (\<forall>e \<in> set uniq. \<exists>pre post. concat ess = pre @ e # post
                \<and> message_id e \<notin> message_id ` set pre)"
    using dedup_emails_inv [of "{}" "[]" "concat ess" seen uniq] e(2) by simp
  have seen: "seen = message_id ` set uniq"
    using dedup_emails_seen [OF e(2)] inv by simp
  show ?thesis
    using that [OF e(1) _ sort_by_date_Inr [OF s] s] e(2) inv seen by simp
qed

lemma filter_key_le_one:
  "distinct (map f xs) \<Longrightarrow> length (filter (\<lambda>x. f x = c) xs) \<le> Suc 0"
  by (induction xs) (auto simp: filter_empty_conv image_iff)

lemma short_list_member: "length xs \<le> Suc 0 \<Longrightarrow> u \<in> set xs \<Longrightarrow> xs = [u]"
  by (cases xs) auto

subsection \<open>The parser's results\<close>

lemma parse_message_id:
  "parse_message rt m = Inr (Some e) \<Longrightarrow>
     message_id e = (case msg_get m ''Message-ID'' of None \<Rightarrow> Str '''' | Some v \<Rightarrow> v)"
  by (auto simp: parse_message_def msg_get_default_def Let_def split: sum.splits if_splits)

lemma parse_messages_origin:
  "parse_messages rt ms = Inr es \<Longrightarrow> e \<in> set es \<Longrightarrow>
     \<exists>m \<in> set ms. parse_message rt m = Inr (Some e)"
  by (induction ms arbitrary: es) (auto split: sum.splits option.splits)

lemma parse_mbox_origin:
  assumes "parse_mbox rt fs p = Inr es" "e \<in> set es"
  shows "\<exists>msgs m. fs p = Some (Inr msgs) \<and> m \<in> set msgs \<and> parse_message rt m = Inr (Some e)"
proof -
  from assms(1) obtain msgs es0 where f: "fs p = Some (Inr msgs)"
    and p: "parse_messages rt msgs = Inr es0" and s: "sort_by_date es0 = Inr es"
    by (auto simp: parse_mbox_def split: option.splits sum.splits)
  have "e \<in> set es0" using sort_by_date_Inr [OF s] assms(2) by simp
  then show ?thesis using parse_messages_origin [OF p] f by blast
qed

lemma parsed_origin:
  assumes "map (parse_mbox rt fs) paths = map Inr ess" "e \<in> set (concat ess)"
  shows "\<exists>p \<in> set paths. \<exists>es. parse_mbox rt fs p = Inr es \<and> e \<in> set es"
  using assms
proof (induction paths arbitrary: ess)
  case Nil
  then show ?case by simp
next
  case (Cons p ps)
  then obtain es ess' where "ess = es # ess'" "parse_mbox rt fs p = Inr es"
    "map (parse_mbox rt fs) ps = map Inr ess'"
    by (cases ess) auto
  then show ?case using Cons by auto
qed

lemma parse_mbox_by_date:
  assumes "parse_mbox rt fs p = Inr es"
  shows "by_date es"
proof -
  from assms obtain es0 where s: "sort_by_date es0 = Inr es"
    by (auto simp: parse_mbox_def split: option.splits sum.splits)
  show ?thesis unfolding by_date_def sort_by_date_Inr [OF s] by (rule sorted_sort_key)
qed

lemma parsed_by_date:
  assumes "map (parse_mbox rt fs) paths = map Inr ess" "es \<in> set ess"
  shows "by_date es"
proof -
  from assms(2) have "Inr es \<in> set (map (parse_mbox rt fs) paths)"
    unfolding assms(1) by simp
  then obtain p where "parse_mbox rt fs p = Inr es" by auto
  then show ?thesis by (rule parse_mbox_by_date)
qed


subsection \<open>The concrete inputs, evaluated\<close>

lemma lower_names:
  "lower ''Message-ID'' = ''message-id''" "lower ''From'' = ''from''" "lower ''To'' = ''to''"
  "lower ''Subject'' = ''subject''" "lower ''Date'' = ''date''" "lower ''Cc'' = ''cc''"
  "lower ''Bcc'' = ''bcc''" "lower ''In-Reply-To'' = ''in-reply-to''"
  "lower ''X-Mailer'' = ''x-mailer''" "lower ''References'' = ''references''"
  "lower ''Content-Disposition'' = ''content-disposition''"
  by (simp_all add: lower_def lower_char_def char_of_def bit_0)

lemma decode_hello: "bytes_decode rt0 ''utf-8'' Strict hello = Inr ''Hello''"
  by (simp add: bytes_decode_def rt0_def hello_def latin1_decode_def char_of_def bit_0)

lemma ascii_fields:
  "header_fetch ''<one@example.com>'' = Str ''<one@example.com>''"
  "header_fetch ''<two@example.com>'' = Str ''<two@example.com>''"
  "header_fetch ''alice@example.com'' = Str ''alice@example.com''"
  "header_fetch ''bob@example.com'' = Str ''bob@example.com''"
  "header_fetch ''First'' = Str ''First''" "header_fetch ''Second'' = Str ''Second''"
  "header_fetch ''Unsigned'' = Str ''Unsigned''"
  "header_fetch ''Unsigned again'' = Str ''Unsigned again''"
  "header_fetch jan4_line = Str jan4_line" "header_fetch jan5_line = Str jan5_line"
  by (simp_all add: header_fetch_def jan4_line_def jan5_line_def)

lemma parse_message_of:
  assumes "parsedate_to_datetime rt0 dl = Inr d"
    and "header_fetch subj = Str subj" "header_fetch dl = Str dl"
    and "\<And>i. mid = Some i \<Longrightarrow> header_fetch i = Str i"
  shows "parse_message rt0 (message_of mid subj dl) = Inr (Some (mail_of mid subj dl d))"
  using assms
  by (cases mid)
     (simp_all add: parse_message_def parse_date_def parse_references_def message_of_def
      mail_of_def fields_of_def msg_get_default_def msg_get_def lower_names
      extract_body_and_attachments_def decode_payload_def decode_hello headers_dict_def Let_def
      ascii_fields)

lemma parsedate_lines:
  "parsedate_to_datetime rt0 jan4_line = Inr jan4" "parsedate_to_datetime rt0 jan5_line = Inr jan5"
  by (simp_all add: rt0_def jan4_line_def jan5_line_def)

lemma parse_fixtures:
  "parse_message rt0 msg1 = Inr (Some mail1)" "parse_message rt0 msg2 = Inr (Some mail2)"
  "parse_message rt0 anon_msg4 = Inr (Some anon_mail4)"
  "parse_message rt0 anon_msg5 = Inr (Some anon_mail5)"
  unfolding msg1_def msg2_def anon_msg4_def anon_msg5_def mail1_def mail2_def
    anon_mail4_def anon_mail5_def
  by (rule parse_message_of; simp add: parsedate_lines ascii_fields)+

lemma fixture_dates:
  "date mail1 = jan4" "date mail2 = jan5" "date anon_mail4 = jan4" "date anon_mail5 = jan5"
  by (simp_all add: mail1_def mail2_def anon_mail4_def anon_mail5_def mail_of_def)

lemma fixture_ids:
  "message_id mail1 = Str ''<one@example.com>''" "message_id mail2 = Str ''<two@example.com>''"
  "message_id anon_mail4 = Str ''''" "message_id anon_mail5 = Str ''''"
  by (simp_all add: mail1_def mail2_def anon_mail4_def anon_mail5_def mail_of_def)

lemma fixture_instants:
  "instant jan4 = 63335154600000000" "instant jan5 = 63335236500000000"
  "aware jan4" "aware jan5"
  by (simp_all add: instant_def jan4_def jan5_def ymd2ord_def days_before_year_def
      days_before_month_def is_leap_def aware_def)

lemma sort_fixtures:
  "sort_by_date [mail2, anon_mail5, mail1] = Inr [mail1, mail2, anon_mail5]"
  "sort_by_date [anon_mail4, mail1] = Inr [anon_mail4, mail1]"
  "sort_by_date [mail1, mail2, anon_mail5] = Inr [mail1, mail2, anon_mail5]"
  "sort_by_date [mail2, mail1] = Inr [mail1, mail2]"
  "sort_by_date [mail1, mail2] = Inr [mail1, mail2]"
  "sort_by_date [anon_mail4] = Inr [anon_mail4]"
  by (simp_all add: sort_by_date_def comparable_def fixture_dates fixture_instants)

lemma takeout_files:
  "takeout ''All mail.mbox'' = Some (Inr [msg2, anon_msg5, msg1])"
  "takeout ''Inbox.mbox'' = Some (Inr [anon_msg4, msg1])"
  by (simp_all add: takeout_def files_def)

lemma parse_takeout:
  "parse_mbox rt0 takeout ''All mail.mbox'' = Inr [mail1, mail2, anon_mail5]"
  "parse_mbox rt0 takeout ''Inbox.mbox'' = Inr [anon_mail4, mail1]"
  by (simp_all add: parse_mbox_def takeout_files parse_fixtures sort_fixtures)

lemma merge_takeout:
  "merge_and_deduplicate rt0 takeout [''All mail.mbox'', ''Inbox.mbox'']
     = Inr [mail1, mail2, anon_mail5]"
  by (simp add: merge_and_deduplicate_def parse_takeout fixture_ids sort_fixtures)

lemma group_two_mails:
  "group_emails_by_date [mail2, mail1] ''month'' = Inr [(''2008-01-January'', [mail1, mail2])]"
  by (simp add: group_emails_by_date_def build_groups_def get_group_key_def fixture_dates
      strftime_Y_def strftime_m_def strftime_B_def jan4_def jan5_def str_int_def zfill_def
      str_nat_four str_nat_digit digit_char_def month_names_def sort_fixtures)


subsection \<open>Floating point\<close>

lemma bit_length_le: "n < 2 ^ k \<Longrightarrow> bit_length n \<le> k"
proof (induction k arbitrary: n)
  case 0
  then show ?case by (simp add: bit_length.simps)
next
  case (Suc k)
  show ?case
  proof (cases "n \<le> 0")
    case True
    then show ?thesis by (simp add: bit_length.simps)
  next
    case False
    have "n div 2 < 2 ^ k" using Suc.prems by simp
    then have "bit_length (n div 2) \<le> k" by (rule Suc.IH)
    then show ?thesis using False by (subst bit_length.simps) simp
  qed
qed

lemma round_half_even_le: "of_int (round_half_even q) \<le> q + 1 / 2"
proof -
  define r where "r = q - of_int \<lfloor>q\<rfloor>"
  have f: "of_int \<lfloor>q\<rfloor> = q - r" by (simp add: r_def)
  have r0: "0 \<le> r" unfolding r_def by simp
  have "round_half_even q = (if r < 1 / 2 then \<lfloor>q\<rfloor> else if 1 / 2 < r then \<lfloor>q\<rfloor> + 1
      else if even \<lfloor>q\<rfloor> then \<lfloor>q\<rfloor> else \<lfloor>q\<rfloor> + 1)"
    by (simp add: round_half_even_def Let_def r_def)
  then have "(of_int (round_half_even q) :: rat) = q - r \<or> (of_int (round_half_even q) :: rat) = q - r + 1 \<and> 1 / 2 \<le> r"
    using f by (auto split: if_splits)
  then show ?thesis using r0 by linarith
qed

lemma pow2_pos: "0 < pow2 k"
  by (simp add: pow2_def)

lemma pow2_mono: "j \<le> k \<Longrightarrow> pow2 j \<le> pow2 k"
proof -
  assume "j \<le> k"
  have p: "pow2 i = 2 powi i" for i
    by (simp add: pow2_def power_int_def field_simps)
  show ?thesis unfolding p using \<open>j \<le> k\<close> by (simp add: power_int_increasing)
qed

lemma round_double_le:
  assumes "x \<noteq> 0" "binade x - 53 \<le> e"
  shows "round_double x \<le> x + pow2 e / 2"
proof -
  let ?e = "binade x - 53"
  have "round_double x = of_int (round_half_even (x / pow2 ?e)) * pow2 ?e"
    using assms(1) by (simp add: round_double_def Let_def)
  also have "\<dots> \<le> (x / pow2 ?e + 1 / 2) * pow2 ?e"
    using round_half_even_le [of "x / pow2 ?e"] pow2_pos [of ?e]
    by (simp add: mult_right_mono)
  also have "\<dots> = x + pow2 ?e / 2"
    using pow2_pos [of ?e] by (simp add: field_simps)
  also have "\<dots> \<le> x + pow2 e / 2" using pow2_mono [OF assms(2)] by simp
  finally show ?thesis .
qed

text \<open>Dividing a size below \<open>2 ^ 1024\<close> by 1024 does not overflow.\<close>

lemma int_truediv_1024:
  assumes "1024 \<le> n" "n < 2 ^ 1024"
  shows "int_truediv n 1024 = Inr (round_double (of_int n / 1024))"
proof -
  let ?x = "of_int n / 1024 :: rat"
  have x1: "1 \<le> ?x" using assms(1) by simp
  have "n div 1024 < 2 ^ 1014" using assms(2) by simp
  moreover have "\<lfloor>?x\<rfloor> = n div 1024"
    using floor_divide_of_int_eq [of n 1024, where ?'a = rat] by simp
  ultimately have "bit_length \<lfloor>?x\<rfloor> \<le> 1014" using bit_length_le by simp
  then have "binade ?x - 53 \<le> 961" using x1 by (simp add: binade_def)
  moreover have "?x \<noteq> 0" using x1 by simp
  ultimately have "round_double ?x \<le> ?x + pow2 961 / 2" by (rule round_double_le [rotated])
  moreover have "?x < 2 ^ 1014"
  proof -
    have "(of_int n :: rat) < of_int (2 ^ 1024)" using assms(2) by (simp only: of_int_less_iff)
    then show ?thesis by simp
  qed
  ultimately have "round_double ?x < 2 ^ 1014 + pow2 961 / 2" by simp
  also have "\<dots> \<le> 2 ^ 1024" by (simp add: pow2_def)
  finally show ?thesis by (simp add: int_truediv_def Let_def)
qed

lemma format_size_for_display_returns:
  assumes "size_bytes a < 2 ^ 1024"
  shows "\<exists>s. format_size_for_display a = Inr s"
proof (cases "size_bytes a < 1024")
  case True
  then show ?thesis by (simp add: format_size_for_display_def)
next
  case False
  then have "int_truediv (size_bytes a) 1024 = Inr (round_double (of_int (size_bytes a) / 1024))"
    using assms by (simp add: int_truediv_1024)
  then show ?thesis using False by (simp add: format_size_for_display_def Let_def)
qed

lemma render_reference_returns:
  assumes "size_bytes a < 2 ^ 1024"
  shows "\<exists>s. render_reference a = Inr s"
  using format_size_for_display_returns [OF assms]
  by (auto simp: render_reference_def Let_def)

lemma render_reference_error: "render_reference (a\<lparr>error := x\<rparr>) = render_reference a"
  by (simp add: render_reference_def format_size_for_display_def)


section \<open>Date grouper: properties\<close>




text \<open>
  C4. For a non-empty list of emails and a valid strategy, the grouping that
  \<open>group_emails_by_date\<close> returns holds every input email exactly once (so the union of the
  buckets is the input set), every bucket is in ascending date order, and the keys are in
  strictly ascending order. A grouping is returned whenever the dates can be compared with
  each other (all aware, or all naive).
\<close>

theorem group_emails_by_date_roundtrip:
  assumes "s \<in> {''month'', ''quarter'', ''year''}" and "es \<noteq> []"
  shows "(comparable es \<longrightarrow> (\<exists>g. group_emails_by_date es s = Inr g))
       \<and> (\<forall>g. group_emails_by_date es s = Inr g \<longrightarrow>
             mset (concat (map snd g)) = mset es
           \<and> \<Union> (set ` set (map snd g)) = set es
           \<and> (\<forall>b \<in> set (map snd g). by_date b)
           \<and> sorted_wrt (<) (map fst g))"
proof (intro conjI impI allI)
  assume "comparable es"
  then show "\<exists>g. group_emails_by_date es s = Inr g"
    using assms(1) by (rule group_emails_by_date_total [rotated])
next
  fix g assume r: "group_emails_by_date es s = Inr g"
  let ?srt = "\<lambda>(k, es). (k :: string, sort_key (\<lambda>e. instant (date e)) es)"
  let ?g0 = "build_groups es s"
  from r assms obtain g' where g': "sort_groups ?g0 = Inr g'" and g: "g = sort_key fst g'"
    by (auto simp: group_emails_by_date_def split: sum.splits if_splits)
  have g'_eq: "g' = map ?srt ?g0" using sort_groups_Inr [OF g'] .
  have keys: "map fst g' = map fst ?g0" unfolding g'_eq by (rule keys_sorted_buckets)
  have m1: "mset (concat (map snd g')) = mset (concat (map snd ?g0))"
    unfolding g'_eq by (rule mset_sorted_buckets)
  have m2: "mset (concat (map snd g)) = mset (concat (map snd g'))"
    unfolding g by (rule mset_concat_perm) simp
  show m: "mset (concat (map snd g)) = mset es"
    using m1 m2 mset_build_groups by simp
  have "set (concat (map snd g)) = set es" using m by (metis set_mset_mset)
  then show "\<Union> (set ` set (map snd g)) = set es" by simp
  show "\<forall>b \<in> set (map snd g). by_date b"
    unfolding g g'_eq by (auto simp: by_date_def)
  have d: "distinct (map fst g)"
    unfolding g using keys distinct_build_groups [of es s]
    by (metis distinct_map distinct_sort set_sort)
  have "sorted (map fst g)" unfolding g by (rule sorted_sort_key)
  then show "sorted_wrt (<) (map fst g)" using d by (simp add: strict_sorted_iff)
qed

text \<open>
  The two emails of January 2008, given in descending order, are grouped under the one key
  \<open>2008-01-January\<close>, in ascending order.
\<close>

theorem group_emails_by_date_roundtrip_witness:
  "group_emails_by_date [mail2, mail1] ''month'' = Inr [(''2008-01-January'', [mail1, mail2])]
   \<and> mset [mail1, mail2] = mset [mail2, mail1]
   \<and> by_date [mail1, mail2]"
  using group_emails_by_date_roundtrip [of "''month''" "[mail2, mail1]"] group_two_mails
  by simp


text \<open>
  C5. \<open>group_emails_by_date\<close> raises \<open>ValueError\<close> exactly when the strategy is none of
  \<open>month\<close>, \<open>quarter\<close> and \<open>year\<close>, whatever the list of emails; the message of the error
  contains the strategy string; and for a valid strategy the empty list gives the empty
  mapping.
\<close>

theorem group_emails_by_date_invalid_strategy:
  "((\<exists>e. group_emails_by_date es s = Inl e \<and> is_ValueError e)
      \<longleftrightarrow> s \<notin> {''month'', ''quarter'', ''year''})
   \<and> (s \<notin> {''month'', ''quarter'', ''year''} \<longrightarrow>
        (\<exists>m. group_emails_by_date es s = Inl (Exn ValueError m) \<and> sublist s m))
   \<and> (s \<in> {''month'', ''quarter'', ''year''} \<longrightarrow> group_emails_by_date [] s = Inr [])"
proof -
  have valid: "\<not> is_ValueError e"
    if "s \<in> {''month'', ''quarter'', ''year''}" "group_emails_by_date es s = Inl e" for e
  proof -
    from that have "sort_groups (build_groups es s) = Inl e"
      by (auto simp: group_emails_by_date_def split: if_splits sum.splits)
    then show ?thesis using sort_groups_Inl by (auto simp: is_ValueError_def)
  qed
  have invalid: "group_emails_by_date es s
      = Inl (Exn ValueError (''Invalid grouping strategy: '' @ sq @ s @ sq
               @ ''. Must be 'month', 'quarter', or 'year'.''))"
    if "s \<notin> {''month'', ''quarter'', ''year''}"
    using that by (simp add: group_emails_by_date_def)
  have sub: "sublist s (''Invalid grouping strategy: '' @ sq @ s @ sq
               @ ''. Must be 'month', 'quarter', or 'year'.'')"
    using sublist_appendI [of s "''Invalid grouping strategy: '' @ sq"
        "sq @ ''. Must be 'month', 'quarter', or 'year'.''"]
    by simp
  have empty: "group_emails_by_date [] s = Inr []" if "s \<in> {''month'', ''quarter'', ''year''}"
    using that by (auto simp: group_emails_by_date_def)
  show ?thesis
  proof (cases "s \<in> {''month'', ''quarter'', ''year''}")
    case True
    then show ?thesis using valid empty by blast
  next
    case False
    then show ?thesis using invalid [OF False] sub by (simp add: is_ValueError_def)
  qed
qed

text \<open>
  The strategy \<open>invalid\<close> is rejected with a message that quotes it, also for the empty
  list; \<open>month\<close> on the empty list gives the empty mapping.
\<close>

theorem group_emails_by_date_invalid_strategy_witness:
  "group_emails_by_date [mail1] ''invalid''
     = Inl (Exn ValueError
         ''Invalid grouping strategy: 'invalid'. Must be 'month', 'quarter', or 'year'.'')
   \<and> (\<exists>m. group_emails_by_date [] ''invalid'' = Inl (Exn ValueError m) \<and> sublist ''invalid'' m)
   \<and> group_emails_by_date [] ''month'' = Inr []"
  using group_emails_by_date_invalid_strategy [of "[]" "''invalid''"]
    group_emails_by_date_invalid_strategy [of "[]" "''month''"]
  by (simp add: group_emails_by_date_def sq_def)


section \<open>Deduplicator and merger: properties\<close>

text \<open>
  C3. Whenever \<open>merge_and_deduplicate\<close> returns, every input file was parsed; with
  \<open>ess\<close> the parsed emails of the files in the order given, no two emails of the output share
  a message identifier, every identifier parsed is present, each email kept is the first
  occurrence of its identifier in processing order (the files in the order given, each file's
  emails in the order \<open>parse_mbox\<close> returns them), the output is in ascending date order, and
  merging the same paths twice over returns the same output (hence the same count).
\<close>

theorem merge_and_deduplicate_first_wins:
  assumes "merge_and_deduplicate rt fs paths = Inr out"
  shows "\<exists>ess. map (parse_mbox rt fs) paths = map Inr ess
          \<and> distinct (map message_id out)
          \<and> message_id ` set out = message_id ` set (concat ess)
          \<and> (\<forall>e \<in> set out. \<exists>pre post. concat ess = pre @ e # post
                \<and> message_id e \<notin> message_id ` set pre)
          \<and> by_date out
          \<and> merge_and_deduplicate rt fs (paths @ paths) = Inr out"
proof -
  from assms obtain ess uniq where p: "map (parse_mbox rt fs) paths = map Inr ess"
    and u: "dedup_emails (concat ess) ({}, []) = Inr (message_id ` set uniq, uniq)"
    and out: "out = sort_key (\<lambda>e. instant (date e)) uniq"
    and s: "sort_by_date uniq = Inr out"
    and d: "distinct (map message_id uniq)"
    and ids: "message_id ` set uniq = message_id ` set (concat ess)"
    and first: "\<forall>e \<in> set uniq. \<exists>pre post. concat ess = pre @ e # post
           \<and> message_id e \<notin> message_id ` set pre"
    by (rule merge_and_deduplicate_Inr)
  have "mset (map message_id out) = mset (map message_id uniq)" unfolding out by simp
  then have d': "distinct (map message_id out)" using d mset_eq_imp_distinct_iff by blast
  have set_out: "set out = set uniq" unfolding out by simp
  have sorted: "by_date out" unfolding by_date_def out by (rule sorted_sort_key)
  have "map (parse_mbox rt fs) (paths @ paths) = map Inr (ess @ ess)" using p by simp
  then have "merge_files rt fs (paths @ paths) ({}, [])
      = dedup_emails (concat (ess @ ess)) ({}, [])"
    by (rule merge_files_of_parsed)
  also have "dedup_emails (concat (ess @ ess)) ({}, []) = Inr (message_id ` set uniq, uniq)"
    using dedup_emails_twice [OF u] u by (simp add: dedup_emails_append)
  finally have twice: "merge_and_deduplicate rt fs (paths @ paths) = Inr out"
    using s by (simp add: merge_and_deduplicate_def)
  show ?thesis using p d' ids first sorted twice set_out by auto
qed

text \<open>
  The two overlapping mailbox files of the example: \<open>All mail\<close> holds three messages, \<open>Inbox\<close>
  repeats one of them; three emails remain, in date order, also when the files are merged
  twice over.
\<close>

theorem merge_and_deduplicate_first_wins_witness:
  "merge_and_deduplicate rt0 takeout [''All mail.mbox'', ''Inbox.mbox'']
     = Inr [mail1, mail2, anon_mail5]
   \<and> distinct (map message_id [mail1, mail2, anon_mail5])
   \<and> by_date [mail1, mail2, anon_mail5]
   \<and> merge_and_deduplicate rt0 takeout
        ([''All mail.mbox'', ''Inbox.mbox''] @ [''All mail.mbox'', ''Inbox.mbox''])
       = Inr [mail1, mail2, anon_mail5]"
  using merge_and_deduplicate_first_wins [OF merge_takeout] merge_takeout by blast

text \<open>
  C9, as the code has it. In a sequence returned by \<open>merge_and_deduplicate\<close> the message
  identifiers are pairwise different; each email comes from a message of one of the files, and
  its identifier is a string: the value of that message's \<open>Message-ID\<close> field, or the empty
  string when the message has no such field. So at most one email of the sequence has the
  empty identifier.
\<close>

theorem merge_and_deduplicate_identifiers:
  assumes "merge_and_deduplicate rt fs paths = Inr out"
  shows "distinct (map message_id out)
       \<and> (\<forall>e \<in> set out. \<exists>p msgs m. p \<in> set paths \<and> fs p = Some (Inr msgs) \<and> m \<in> set msgs
             \<and> parse_message rt m = Inr (Some e)
             \<and> message_id e = (case msg_get m ''Message-ID'' of None \<Rightarrow> Str '''' | Some v \<Rightarrow> v)
             \<and> (\<exists>i. message_id e = Str i))
       \<and> length (filter (\<lambda>e. message_id e = Str '''') out) \<le> 1"
proof -
  from assms obtain ess uniq where p: "map (parse_mbox rt fs) paths = map Inr ess"
    and u: "dedup_emails (concat ess) ({}, []) = Inr (message_id ` set uniq, uniq)"
    and out: "out = sort_key (\<lambda>e. instant (date e)) uniq"
    and d: "distinct (map message_id uniq)"
    and first: "\<forall>e \<in> set uniq. \<exists>pre post. concat ess = pre @ e # post
           \<and> message_id e \<notin> message_id ` set pre"
    by (rule merge_and_deduplicate_Inr)
  have "mset (map message_id out) = mset (map message_id uniq)" unfolding out by simp
  then have d': "distinct (map message_id out)" using d mset_eq_imp_distinct_iff by blast
  have origin: "\<exists>p msgs m. p \<in> set paths \<and> fs p = Some (Inr msgs) \<and> m \<in> set msgs
             \<and> parse_message rt m = Inr (Some e)
             \<and> message_id e = (case msg_get m ''Message-ID'' of None \<Rightarrow> Str '''' | Some v \<Rightarrow> v)
             \<and> (\<exists>i. message_id e = Str i)"
    if "e \<in> set out" for e
  proof -
    from that have "e \<in> set uniq" unfolding out by simp
    with first have c: "e \<in> set (concat ess)" by fastforce
    from parsed_origin [OF p c] obtain q es where q: "q \<in> set paths"
      "parse_mbox rt fs q = Inr es" "e \<in> set es" by blast
    from parse_mbox_origin [OF q(2,3)] obtain msgs m where
      m: "fs q = Some (Inr msgs)" "m \<in> set msgs" "parse_message rt m = Inr (Some e)" by blast
    show ?thesis using q(1) m parse_message_id [OF m(3)] dedup_emails_str [OF u c] by blast
  qed
  show ?thesis using d' origin filter_key_le_one [OF d', of "Str ''''"] by simp
qed

text \<open>
  The two mailbox files of the example, which hold two messages without \<open>Message-ID\<close>: the
  three emails of the output have different identifiers, one of them the empty string.
\<close>

theorem merge_and_deduplicate_identifiers_witness:
  "merge_and_deduplicate rt0 takeout [''All mail.mbox'', ''Inbox.mbox'']
     = Inr [mail1, mail2, anon_mail5]
   \<and> distinct (map message_id [mail1, mail2, anon_mail5])
   \<and> length (filter (\<lambda>e. message_id e = Str '''') [mail1, mail2, anon_mail5]) \<le> 1"
  using merge_and_deduplicate_identifiers [OF merge_takeout] merge_takeout by blast

text \<open>
  A mailbox whose only message has no \<open>Message-ID\<close> field: the email parsed from it is in
  the output, with the empty string as its identifier.
\<close>

theorem merge_and_deduplicate_empty_identifier:
  "msg_get anon_msg4 ''Message-ID'' = None
   \<and> merge_and_deduplicate rt0 (files [(''Inbox.mbox'', [anon_msg4])]) [''Inbox.mbox'']
       = Inr [anon_mail4]
   \<and> message_id anon_mail4 = Str ''''"
proof -
  have a: "msg_get anon_msg4 ''Message-ID'' = None"
    by (simp add: msg_get_def anon_msg4_def message_of_def fields_of_def lower_names)
  have "parse_mbox rt0 (files [(''Inbox.mbox'', [anon_msg4])]) ''Inbox.mbox'' = Inr [anon_mail4]"
    by (simp add: parse_mbox_def files_def parse_fixtures sort_fixtures)
  then have b:
    "merge_and_deduplicate rt0 (files [(''Inbox.mbox'', [anon_msg4])]) [''Inbox.mbox'']
       = Inr [anon_mail4]"
    by (simp add: merge_and_deduplicate_def fixture_ids sort_fixtures)
  show ?thesis using a b by (simp add: fixture_ids)
qed

text \<open>
  C10, as the code has it. A parsed message without a \<open>Message-ID\<close> field gets the empty
  string as its identifier. The merger meets the emails file by file in the order given, and
  the emails of one file in the order \<open>parse_mbox\<close> returns them, which is ascending date
  order. When two or more of these emails have the empty identifier, the output holds exactly
  one of them: the first one met.
\<close>

theorem missing_message_id_deduplicated:
  assumes "merge_and_deduplicate rt fs paths = Inr out"
    and "map (parse_mbox rt fs) paths = map Inr ess"
    and "2 \<le> length (filter (\<lambda>e. message_id e = Str '''') (concat ess))"
  shows "(\<forall>m e. msg_get m ''Message-ID'' = None \<and> parse_message rt m = Inr (Some e)
            \<longrightarrow> message_id e = Str '''')
       \<and> (\<forall>es \<in> set ess. by_date es)
       \<and> filter (\<lambda>e. message_id e = Str '''') out
           = [hd (filter (\<lambda>e. message_id e = Str '''') (concat ess))]"
proof -
  let ?idl = "\<lambda>e. message_id e = Str ''''"
  from assms(1) obtain ess' uniq where p: "map (parse_mbox rt fs) paths = map Inr ess'"
    and out: "out = sort_key (\<lambda>e. instant (date e)) uniq"
    and d: "distinct (map message_id uniq)"
    and ids: "message_id ` set uniq = message_id ` set (concat ess')"
    and first: "\<forall>e \<in> set uniq. \<exists>pre post. concat ess' = pre @ e # post
           \<and> message_id e \<notin> message_id ` set pre"
    by (rule merge_and_deduplicate_Inr)
  have "map Inr ess' = (map Inr ess :: (exn + Email list) list)" using p assms(2) by simp
  then have ess: "ess' = ess" by (simp add: inj_map_eq_map)
  have "filter ?idl (concat ess) \<noteq> []" using assms(3) by auto
  then obtain x where "x \<in> set (concat ess)" "?idl x"
    by (metis (mono_tags, lifting) filter_False)
  then have "Str '''' \<in> message_id ` set uniq" using ids ess by force
  then obtain u where u: "u \<in> set uniq" "?idl u" by force
  from first u(1) ess obtain pre post where
    pp: "concat ess = pre @ u # post" "message_id u \<notin> message_id ` set pre" by blast
  have "filter ?idl pre = []" using pp(2) u(2) by (force simp: filter_empty_conv)
  then have hd: "hd (filter ?idl (concat ess)) = u" using pp(1) u(2) by simp
  have "mset (filter ?idl out) = mset (filter ?idl uniq)" unfolding out by simp
  then have len: "length (filter ?idl out) = length (filter ?idl uniq)"
    and mem: "set (filter ?idl out) = set (filter ?idl uniq)"
    by (metis size_mset, metis set_mset_mset)
  have "length (filter ?idl out) \<le> Suc 0" using filter_key_le_one [OF d] len by simp
  moreover have "u \<in> set (filter ?idl out)" using mem u by simp
  ultimately have one: "filter ?idl out = [u]" by (rule short_list_member)
  have sorted: "\<forall>es \<in> set ess. by_date es" using parsed_by_date [OF assms(2)] by blast
  have ids: "\<forall>m e. msg_get m ''Message-ID'' = None \<and> parse_message rt m = Inr (Some e)
            \<longrightarrow> message_id e = Str ''''"
    using parse_message_id by fastforce
  show ?thesis using one hd sorted ids by simp
qed

text \<open>
  In the example, \<open>All mail\<close> and \<open>Inbox\<close> each hold a message without \<open>Message-ID\<close>; only
  the one of \<open>All mail\<close>, which is met first, is in the output.
\<close>

theorem missing_message_id_deduplicated_witness:
  "filter (\<lambda>e. message_id e = Str '''') (concat [[mail1, mail2, anon_mail5], [anon_mail4, mail1]])
     = [anon_mail5, anon_mail4]
   \<and> by_date [mail1, mail2, anon_mail5] \<and> by_date [anon_mail4, mail1]
   \<and> filter (\<lambda>e. message_id e = Str '''') [mail1, mail2, anon_mail5] = [anon_mail5]"
  using missing_message_id_deduplicated [OF merge_takeout,
      of "[[mail1, mail2, anon_mail5], [anon_mail4, mail1]]"]
  by (simp add: parse_takeout fixture_ids)

text \<open>
  One mailbox file whose first message is dated 5 January and whose second message is dated
  4 January, both without \<open>Message-ID\<close>: the email of the output is the one parsed from the
  second message of the file; the first message of the file is dropped.
\<close>

theorem missing_message_id_second_of_file:
  "msg_get anon_msg5 ''Message-ID'' = None \<and> msg_get anon_msg4 ''Message-ID'' = None
   \<and> parse_message rt0 anon_msg5 = Inr (Some anon_mail5)
   \<and> parse_message rt0 anon_msg4 = Inr (Some anon_mail4)
   \<and> merge_and_deduplicate rt0 (files [(''Inbox.mbox'', [anon_msg5, anon_msg4])]) [''Inbox.mbox'']
       = Inr [anon_mail4]
   \<and> anon_mail4 \<noteq> anon_mail5"
proof -
  have a: "msg_get anon_msg5 ''Message-ID'' = None" "msg_get anon_msg4 ''Message-ID'' = None"
    by (simp_all add: msg_get_def anon_msg4_def anon_msg5_def message_of_def fields_of_def
        lower_names)
  have s: "sort_by_date [anon_mail5, anon_mail4] = Inr [anon_mail4, anon_mail5]"
    "sort_by_date [anon_mail4] = Inr [anon_mail4]"
    by (simp_all add: sort_by_date_def comparable_def fixture_dates fixture_instants)
  have "parse_mbox rt0 (files [(''Inbox.mbox'', [anon_msg5, anon_msg4])]) ''Inbox.mbox''
      = Inr [anon_mail4, anon_mail5]"
    by (simp add: parse_mbox_def files_def parse_fixtures s)
  then have b:
    "merge_and_deduplicate rt0 (files [(''Inbox.mbox'', [anon_msg5, anon_msg4])]) [''Inbox.mbox'']
       = Inr [anon_mail4]"
    by (simp add: merge_and_deduplicate_def fixture_ids s)
  have "instant (date anon_mail4) \<noteq> instant (date anon_mail5)"
    by (simp add: fixture_dates fixture_instants)
  then have c: "anon_mail4 \<noteq> anon_mail5" by auto
  show ?thesis using a b c by (simp add: parse_fixtures)
qed


section \<open>Header objects in the merger\<close>

text \<open>
  A field value with a byte outside ASCII is returned by \<open>message.get\<close> as a \<open>Header\<close>
  object. The parser stores it as the message identifier, and the deduplication loop raises
  \<open>TypeError\<close> when it tests the identifier against the set of those seen: the merge of a
  mailbox file with such a message returns nothing.
\<close>

lemma raw_id_header: "header_fetch raw_id = Header raw_id"
  by (simp add: header_fetch_def raw_id_def)

lemma parse_raw_msg:
  "\<exists>e. parse_message rt0 raw_msg = Inr (Some e) \<and> message_id e = Header raw_id"
proof -
  have a: "header_fetch ''Raw'' = Str ''Raw''" by (simp add: header_fetch_def)
  show ?thesis
    by (simp add: raw_msg_def parse_message_def parse_date_def parse_references_def
        message_of_def fields_of_def msg_get_default_def msg_get_def lower_names raw_id_header
        ascii_fields a parsedate_lines extract_body_and_attachments_def decode_payload_def
        decode_hello Let_def)
qed

lemma merge_and_deduplicate_header_identifier:
  "merge_and_deduplicate rt0 (files [(''Inbox.mbox'', [raw_msg])]) [''Inbox.mbox'']
     = Inl unhashable
   \<and> exn_class unhashable = TypeError"
proof -
  from parse_raw_msg obtain e where e: "parse_message rt0 raw_msg = Inr (Some e)"
    "message_id e = Header raw_id" by blast
  have "sort_by_date [e] = Inr [e]" by (simp add: sort_by_date_def comparable_def)
  then have "parse_mbox rt0 (files [(''Inbox.mbox'', [raw_msg])]) ''Inbox.mbox'' = Inr [e]"
    by (simp add: parse_mbox_def files_def e)
  then show ?thesis
    by (simp add: merge_and_deduplicate_def e unhashable_def)
qed

text \<open>
  Rendering an email escapes its subject, which raises on a \<open>Header\<close> object: an email that
  \<open>render_email_to_html\<close> has rendered has a string as its subject, so the stamper is
  called with a string.
\<close>

lemma appended_Inr:
  "appended steps = Inr parts \<Longrightarrow> step \<in> set steps \<Longrightarrow> \<exists>ps. step = Inr ps"
  by (induction steps arbitrary: parts) (auto split: sum.splits)

lemma render_email_header_subject:
  assumes "render_email_header email = Inr h"
  shows "\<exists>s. subject email = Str s"
proof -
  from assms obtain parts where
    "appended
        [Inr [''<div class=\"email-header\">''],
         Inr [render_header_field ''Date'' (strftime_long (date email))],
         escaped_field ''From'' (from_addr email),
         escaped_field ''To'' (to_addr email),
         optional_field ''CC'' (cc_addr email),
         optional_field ''BCC'' (bcc_addr email),
         escaped_field ''Subject'' (subject email),
         escaped_field ''Message-ID'' (message_id email),
         optional_field ''In-Reply-To'' (in_reply_to email),
         Inr (case references email of
                None \<Rightarrow> []
              | Some refs \<Rightarrow>
                  if refs = [] then []
                  else [render_header_field ''References'' (html_escape (join '' '' refs))]),
         optional_field ''X-Mailer'' (x_mailer email),
         Inr [''</div>'']] = Inr parts"
    by (auto simp: render_email_header_def split: sum.splits)
  from appended_Inr [OF this, of "escaped_field ''Subject'' (subject email)"]
  obtain ps where "escaped_field ''Subject'' (subject email) = Inr ps" by auto
  then show ?thesis by (cases "subject email") (auto simp: escaped_field_def)
qed

lemma render_email_to_html_subject:
  assumes "render_email_to_html rt email = Inr (h, email')"
  shows "\<exists>s. subject email' = Str s"
proof -
  from assms obtain header where r: "render_email_header email = Inr header"
    by (auto simp: render_email_to_html_def split: sum.splits)
  from assms have "subject email' = subject email"
    by (auto simp: render_email_to_html_def Let_def split: sum.splits if_splits)
  then show ?thesis using render_email_header_subject [OF r] by simp
qed


section \<open>Attachment renderer: properties\<close>

text \<open>
  C8. For every byte content, the decoding steps of the CSV, HTML and generic-text renderers
  all compute the two-step fallback (UTF-8, then Latin-1 with replacement), and that fallback
  returns a string: none of them raises.
\<close>

theorem text_decoding_never_raises:
  "render_csv_decode rt raw = spec_two_step_decode rt raw
   \<and> render_html_decode rt raw = spec_two_step_decode rt raw
   \<and> render_text_decode rt raw = spec_two_step_decode rt raw
   \<and> (\<exists>s. spec_two_step_decode rt raw = Inr s)"
proof -
  have u: "exn_class e = UnicodeDecodeError" if "bytes_decode rt ''utf-8'' Strict raw = Inl e" for e
    using that by (auto simp: bytes_decode_def split: sum.splits)
  have l: "bytes_decode rt ''latin-1'' m raw = Inr (latin1_decode raw)" for m
    by (simp add: bytes_decode_def)
  show ?thesis
    by (cases "bytes_decode rt ''utf-8'' Strict raw")
       (auto simp: render_csv_decode_def render_html_decode_def render_text_decode_def
          spec_two_step_decode_def l dest: u)
qed

text \<open>
  The fallback of \<open>render_attachment\<close> where the size can be formatted. For an attachment
  whose size field is below \<open>2 ^ 1024\<close>, as is every size the parser sets,
  \<open>render_attachment\<close> returns and stores the HTML it returns in the attachment; and when the
  renderer it dispatched to has raised \<open>e\<close>, the HTML is the reference card, the
  content-type tag is \<open>reference\<close> and the error field holds \<open>str(e)\<close>.
\<close>

theorem render_attachment_returns:
  assumes "size_bytes a < 2 ^ 1024"
  shows "\<exists>html_content a'. render_attachment rt a = Inr (html_content, a')
           \<and> rendered_content a' = Some html_content
           \<and> (\<forall>e. render_dispatch rt a = Inl e \<longrightarrow>
                 render_reference a = Inr html_content
               \<and> content_type a' = Some ''reference''
               \<and> error a' = Some (exn_str e))"
proof (cases "render_dispatch rt a")
  case (Inl e)
  from render_reference_returns [OF assms] obtain h where h: "render_reference a = Inr h" ..
  show ?thesis using Inl h by (simp add: render_attachment_def render_reference_error)
next
  case (Inr r)
  then show ?thesis by (cases r) (simp add: render_attachment_def)
qed

lemma render_broken_docx:
  "render_dispatch rt0 broken_docx = Inl (Exn OtherException ''File is not a zip file'')"
  by (simp add: render_dispatch_def broken_docx_def lower_def lower_char_def char_of_def bit_0
      suffix_to_prefix render_docx_def tagged_def rt0_def)

text \<open>
  The file that is no Word document: the document reader raises, and the attachment is
  rendered as a reference card with the reader's message recorded.
\<close>

theorem render_attachment_returns_witness:
  "size_bytes broken_docx < 2 ^ 1024
   \<and> (\<exists>html_content a'. render_attachment rt0 broken_docx = Inr (html_content, a')
         \<and> render_reference broken_docx = Inr html_content
         \<and> content_type a' = Some ''reference''
         \<and> error a' = Some ''File is not a zip file'')"
proof -
  have s: "size_bytes broken_docx < 2 ^ 1024" by (simp add: broken_docx_def)
  show ?thesis
    using render_attachment_returns [OF s, of rt0] s render_broken_docx by auto
qed





section \<open>Continuation header stamper: properties\<close>

lemma length_stamp_pages: "length (stamp_pages subj tp i ps) = length ps"
  by (induction ps arbitrary: i) auto

lemma nth_stamp_pages:
  "k < length ps \<Longrightarrow>
     stamp_pages subj tp i ps ! k
       = (if i + k = 0 then ps ! k
          else merge_page (ps ! k) (create_header_overlay subj tp (i + k + 1)))"
proof (induction ps arbitrary: i k)
  case Nil
  then show ?case by simp
next
  case (Cons p ps)
  then show ?case by (cases k) auto
qed

text \<open>
  C7. The stamper keeps the number of pages; a PDF of at most one page is passed through
  unchanged; in a PDF of more pages the first page is unchanged and page \<open>n \<ge> 2\<close> is the
  input page with exactly one overlay composited onto it, whose text is
  \<open>Subject: <subject> (continued - page n of TOTAL)\<close> with the subject cut to 60 characters
  and \<open>...\<close> appended when it is longer.
\<close>

theorem add_continuation_headers_stamps:
  "length (add_continuation_headers pages subj frm) = length pages
   \<and> (length pages \<le> 1 \<longrightarrow> add_continuation_headers pages subj frm = pages)
   \<and> (1 < length pages \<longrightarrow>
        add_continuation_headers pages subj frm ! 0 = pages ! 0
        \<and> (\<forall>n. 2 \<le> n \<and> n \<le> length pages \<longrightarrow>
             (\<exists>h. add_continuation_headers pages subj frm ! (n - 1)
                     = (pages ! (n - 1))\<lparr>merged := merged (pages ! (n - 1)) @ [h]\<rparr>
                 \<and> ov_text h = spec_header_text subj n (length pages))))"
proof (intro conjI impI allI)
  show "length (add_continuation_headers pages subj frm) = length pages"
    by (simp add: add_continuation_headers_def Let_def length_stamp_pages)
  show "add_continuation_headers pages subj frm = pages" if "length pages \<le> 1"
    using that by (simp add: add_continuation_headers_def Let_def)
  show "add_continuation_headers pages subj frm ! 0 = pages ! 0" if "1 < length pages"
  proof -
    from that have "0 < length pages" by (cases pages) simp_all
    from nth_stamp_pages [OF this, of subj "length pages" 0]
    have "stamp_pages subj (length pages) 0 pages ! 0 = pages ! 0" by simp
    then show ?thesis using that by (simp add: add_continuation_headers_def Let_def)
  qed
  show "\<exists>h. add_continuation_headers pages subj frm ! (n - 1)
              = (pages ! (n - 1))\<lparr>merged := merged (pages ! (n - 1)) @ [h]\<rparr>
           \<and> ov_text h = spec_header_text subj n (length pages)"
    if "1 < length pages" "2 \<le> n \<and> n \<le> length pages" for n
  proof -
    from that have k: "n - 1 < length pages" "0 + (n - 1) \<noteq> 0" "0 + (n - 1) + 1 = n"
      by auto
    from nth_stamp_pages [OF k(1), of subj "length pages" 0] k(2,3)
    have "stamp_pages subj (length pages) 0 pages ! (n - 1)
        = merge_page (pages ! (n - 1)) (create_header_overlay subj (length pages) n)"
      by simp
    then have "add_continuation_headers pages subj frm ! (n - 1)
        = merge_page (pages ! (n - 1)) (create_header_overlay subj (length pages) n)"
      using that by (simp add: add_continuation_headers_def Let_def)
    moreover have "ov_text (create_header_overlay subj (length pages) n)
        = spec_header_text subj n (length pages)"
      by (simp add: create_header_overlay_def spec_header_text_def Let_def)
    ultimately show ?thesis by (auto simp: merge_page_def)
  qed
qed

text \<open>
  Three pages under a subject of 66 characters: three pages come out, the first as it was,
  the second with the header for page 2 of 3 on the subject cut to 60 characters.
\<close>

theorem add_continuation_headers_stamps_witness:
  "length (add_continuation_headers three_pages long_subject ''alice@example.com'') = 3
   \<and> add_continuation_headers three_pages long_subject ''alice@example.com'' ! 0
       = \<lparr>page_content = [1], merged = []\<rparr>
   \<and> (\<exists>h. add_continuation_headers three_pages long_subject ''alice@example.com'' ! 1
             = \<lparr>page_content = [2], merged = [h]\<rparr>
         \<and> ov_text h = ''Subject: Quarterly report: revenue, costs and staffing in the norther... (continued - page 2 of 3)'')"
proof -
  note t = add_continuation_headers_stamps [of three_pages long_subject "''alice@example.com''"]
  have len: "length three_pages = 3" by (simp add: three_pages_def)
  have "1 < length three_pages" "2 \<le> (2 :: nat) \<and> 2 \<le> length three_pages"
    by (simp_all add: len)
  with t have "\<exists>h. add_continuation_headers three_pages long_subject ''alice@example.com'' ! (2 - 1)
             = (three_pages ! (2 - 1))\<lparr>merged := merged (three_pages ! (2 - 1)) @ [h]\<rparr>
         \<and> ov_text h = spec_header_text long_subject 2 (length three_pages)"
    by blast
  then have c: "\<exists>h. add_continuation_headers three_pages long_subject ''alice@example.com'' ! 1
             = \<lparr>page_content = [2], merged = [h]\<rparr>
         \<and> ov_text h = ''Subject: Quarterly report: revenue, costs and staffing in the norther... (continued - page 2 of 3)''"
    by (simp add: three_pages_def long_subject_def spec_header_text_def str_nat_digit
        digit_char_def)
  from t len have "add_continuation_headers three_pages long_subject ''alice@example.com'' ! 0
       = three_pages ! 0" by simp
  then have b: "add_continuation_headers three_pages long_subject ''alice@example.com'' ! 0
       = \<lparr>page_content = [1], merged = []\<rparr>" by (simp add: three_pages_def)
  show ?thesis using t len b c by simp
qed


section \<open>Orchestrator: properties\<close>

lemma merge_and_deduplicate_comparable:
  assumes "merge_and_deduplicate rt fs paths = Inr out"
  shows "comparable out"
proof -
  from assms obtain ess uniq where out: "out = sort_key (\<lambda>e. instant (date e)) uniq"
    and s: "sort_by_date uniq = Inr out"
    by (rule merge_and_deduplicate_Inr)
  have "comparable uniq" using s by (auto simp: sort_by_date_def split: if_splits)
  then show ?thesis by (rule comparable_subset) (simp add: out)
qed

lemma report_quiet: "quiet cb \<Longrightarrow> report cb c m = None"
  by (auto simp: quiet_def report_def split: option.splits)

lemma int_truediv_fraction:
  assumes "0 \<le> a" "a < b"
  shows "\<exists>q. int_truediv a b = Inr q"
proof -
  let ?x = "of_int a / of_int b :: rat"
  have x: "0 \<le> ?x" "?x < 1" using assms by simp_all
  have "round_double ?x < 2 ^ 1024"
  proof (cases "?x = 0")
    case True
    then show ?thesis by (simp add: round_double_def)
  next
    case False
    have "binade ?x - 53 \<le> - 52" using x(2) by (simp add: binade_def)
    with False have "round_double ?x \<le> ?x + pow2 (- 52) / 2" by (rule round_double_le)
    also have "\<dots> \<le> 1 + 1" using x(2) by (simp add: pow2_def)
    also have "\<dots> < (2 :: rat) ^ 1024" by simp
    finally show ?thesis .
  qed
  then show ?thesis by (simp add: int_truediv_def Let_def)
qed

lemma group_progress_quiet:
  assumes "quiet cb" "i < n"
  shows "group_progress cb i n k = None"
proof (cases cb)
  case None
  then show ?thesis by (simp add: group_progress_def)
next
  case (Some f)
  from int_truediv_fraction [of "int i" "int n"] assms(2)
  obtain q where "int_truediv (int i) (int n) = Inr q" by auto
  then show ?thesis using Some assms(1) by (simp add: group_progress_def quiet_def Let_def)
qed

text \<open>The loop over the emails of a group, in closed form.\<close>

lemma process_emails_closed:
  "process_emails rt ev tp j es (errs, infos, pdfs)
     = (errs @ spec_email_errors rt ev tp j es,
        fst (snd (process_emails rt ev tp j es (errs, infos, pdfs))),
        pdfs @ spec_email_pdfs rt ev tp j es)"
proof (induction es arbitrary: j errs infos pdfs)
  case Nil
  then show ?case by (simp add: spec_email_errors_def spec_email_pdfs_def)
next
  case (Cons email es)
  obtain ni r where pe: "process_email rt ev tp j email = (ni, r)"
    by (cases "process_email rt ev tp j email")
  show ?case
  proof (cases r)
    case (Inl e)
    show ?thesis
      using pe Inl
      by (simp add: spec_email_errors_def spec_email_pdfs_def enumerate_simps)
         (subst Cons.IH, simp add: spec_email_errors_def spec_email_pdfs_def)
  next
    case (Inr pdf)
    show ?thesis
      using pe Inr
      by (simp add: spec_email_errors_def spec_email_pdfs_def enumerate_simps)
         (subst Cons.IH, simp add: spec_email_errors_def spec_email_pdfs_def)
  qed
qed

text \<open>
  One group in a world where the temporary directory can be made and removed and the callback
  is quiet: the state is extended by the group's error entries, and a file is created exactly
  when some email produced a PDF and the merge did not raise.
\<close>

lemma process_group_quiet:
  assumes "quiet cb" "i < n" "temporary_directory ev i = Inr tp" "cleanup ev tp = None"
  shows "\<exists>infos' created' written'.
           process_group rt ev cb output_dir n i grp (errs, infos, created, written)
             = Inr (errs @ spec_group_errors rt ev output_dir tp grp, infos', created', written')"
proof -
  obtain key es where grp: "grp = (key, es)" by (cases grp)
  obtain infos1 where p: "process_emails rt ev tp 0 es (errs, infos, [])
     = (errs @ spec_email_errors rt ev tp 0 es, infos1, spec_email_pdfs rt ev tp 0 es)"
    using process_emails_closed [of rt ev tp 0 es errs infos "[]"] by simp
  show ?thesis
    unfolding grp process_group_def
    using assms(3,4) group_progress_quiet [OF assms(1,2), of key]
    by (simp add: p spec_group_errors_def Let_def split: sum.splits)
qed

lemma process_groups_quiet:
  assumes "quiet cb" "\<forall>i. temporary_directory ev i = Inr (tmp i)" "\<forall>p. cleanup ev p = None"
    and "i + length gs \<le> n"
  shows "\<exists>infos' created' written'.
           process_groups rt ev cb output_dir n i gs (errs, infos, created, written)
             = Inr (errs @ concat (map (\<lambda>(k, g). spec_group_errors rt ev output_dir (tmp k) g)
                                       (enumerate i gs)),
                    infos', created', written')"
  using assms(4)
proof (induction gs arbitrary: i errs infos created written)
  case Nil
  then show ?case by simp
next
  case (Cons g gs)
  have "i < n" using Cons.prems by simp
  from process_group_quiet [OF assms(1) this, of ev "tmp i" rt output_dir g errs infos created written]
    assms(2,3)
  obtain infos1 created1 written1 where
    g: "process_group rt ev cb output_dir n i g (errs, infos, created, written)
          = Inr (errs @ spec_group_errors rt ev output_dir (tmp i) g, infos1, created1, written1)"
    by auto
  have "Suc i + length gs \<le> n" using Cons.prems by simp
  from Cons.IH [OF this, of "errs @ spec_group_errors rt ev output_dir (tmp i) g" infos1 created1 written1]
  show ?case using g by (simp add: enumerate_simps)
qed

text \<open>
  C1, as the code has it. In a run where the output directory and the temporary directories
  can be made and removed and the progress callback does not raise:
  \<^item> when parsing and merging the inputs raises, the early result with \<open>success = False\<close> and
    the one error entry is returned;
  \<^item> when no email is found, the early result with \<open>success = True\<close> is returned;
  \<^item> when emails are found and the strategy is valid, a result is returned whose error list
    is exactly the per-email and per-group failures in processing order, whose email count is
    the number of merged emails and whose success flag says that some file was created;
  \<^item> when emails are found and the strategy is not valid, the \<open>ValueError\<close> of
    \<open>group_emails_by_date\<close>, which quotes the strategy, reaches the caller.
\<close>

theorem convert_mbox_to_pdfs_outcome:
  assumes "mkdir ev output_dir = None" and "quiet cb"
    and "\<forall>i. temporary_directory ev i = Inr (tmp i)" and "\<forall>p. cleanup ev p = None"
  shows "(\<forall>e. merge_and_deduplicate rt (mailboxes ev) paths = Inl e \<longrightarrow>
            convert_mbox_to_pdfs rt ev paths output_dir s cb
              = Inr (\<lparr>success = False, pdfs_created = 0, emails_processed = 0,
                      errors = [''Failed to parse mbox files: '' @ exn_str e],
                      attachment_errors = [], created_files = []\<rparr>, []))
       \<and> (merge_and_deduplicate rt (mailboxes ev) paths = Inr [] \<longrightarrow>
            convert_mbox_to_pdfs rt ev paths output_dir s cb
              = Inr (\<lparr>success = True, pdfs_created = 0, emails_processed = 0,
                      errors = [''No emails found in the provided mbox files''],
                      attachment_errors = [], created_files = []\<rparr>, []))
       \<and> (\<forall>emails. merge_and_deduplicate rt (mailboxes ev) paths = Inr emails \<and> emails \<noteq> []
              \<and> s \<in> {''month'', ''quarter'', ''year''} \<longrightarrow>
            (\<exists>groups r written.
               group_emails_by_date emails s = Inr groups
             \<and> convert_mbox_to_pdfs rt ev paths output_dir s cb = Inr (r, written)
             \<and> errors r = concat (map (\<lambda>(k, g). spec_group_errors rt ev output_dir (tmp k) g)
                                       (enumerate 0 groups))
             \<and> emails_processed r = length emails
             \<and> pdfs_created r = length (created_files r)
             \<and> success r = (created_files r \<noteq> [])))
       \<and> (\<forall>emails. merge_and_deduplicate rt (mailboxes ev) paths = Inr emails \<and> emails \<noteq> []
              \<and> s \<notin> {''month'', ''quarter'', ''year''} \<longrightarrow>
            (\<exists>m. convert_mbox_to_pdfs rt ev paths output_dir s cb = Inl (Exn ValueError m)
                \<and> sublist s m))"
proof (intro conjI allI impI)
  note q = report_quiet [OF assms(2)]
  show "convert_mbox_to_pdfs rt ev paths output_dir s cb
              = Inr (\<lparr>success = False, pdfs_created = 0, emails_processed = 0,
                      errors = [''Failed to parse mbox files: '' @ exn_str e],
                      attachment_errors = [], created_files = []\<rparr>, [])"
    if "merge_and_deduplicate rt (mailboxes ev) paths = Inl e" for e
    using that assms(1) by (simp add: convert_mbox_to_pdfs_def q)
  show "convert_mbox_to_pdfs rt ev paths output_dir s cb
              = Inr (\<lparr>success = True, pdfs_created = 0, emails_processed = 0,
                      errors = [''No emails found in the provided mbox files''],
                      attachment_errors = [], created_files = []\<rparr>, [])"
    if "merge_and_deduplicate rt (mailboxes ev) paths = Inr []"
    using that assms(1) by (simp add: convert_mbox_to_pdfs_def q)
  show "\<exists>groups r written.
               group_emails_by_date emails s = Inr groups
             \<and> convert_mbox_to_pdfs rt ev paths output_dir s cb = Inr (r, written)
             \<and> errors r = concat (map (\<lambda>(k, g). spec_group_errors rt ev output_dir (tmp k) g)
                                       (enumerate 0 groups))
             \<and> emails_processed r = length emails
             \<and> pdfs_created r = length (created_files r)
             \<and> success r = (created_files r \<noteq> [])"
    if h: "merge_and_deduplicate rt (mailboxes ev) paths = Inr emails \<and> emails \<noteq> []
              \<and> s \<in> {''month'', ''quarter'', ''year''}" for emails
  proof -
    from h have m: "merge_and_deduplicate rt (mailboxes ev) paths = Inr emails"
      and ne: "emails \<noteq> []" and v: "s \<in> {''month'', ''quarter'', ''year''}" by simp_all
    from group_emails_by_date_total [OF v merge_and_deduplicate_comparable [OF m]]
    obtain groups where g: "group_emails_by_date emails s = Inr groups" ..
    from process_groups_quiet [OF assms(2,3,4), of 0 groups "length groups" rt output_dir "[]" "[]" "[]" "[]"]
    obtain infos created written where
      p: "process_groups rt ev cb output_dir (length groups) 0 groups ([], [], [], [])
            = Inr (concat (map (\<lambda>(k, g). spec_group_errors rt ev output_dir (tmp k) g)
                               (enumerate 0 groups)),
                   infos, created, written)"
      by auto
    show ?thesis
      using m ne g p assms(1) by (simp add: convert_mbox_to_pdfs_def q)
  qed
  show "\<exists>m. convert_mbox_to_pdfs rt ev paths output_dir s cb = Inl (Exn ValueError m)
                \<and> sublist s m"
    if h: "merge_and_deduplicate rt (mailboxes ev) paths = Inr emails \<and> emails \<noteq> []
              \<and> s \<notin> {''month'', ''quarter'', ''year''}" for emails
  proof -
    have "sublist s (''Invalid grouping strategy: '' @ sq @ s @ sq
               @ ''. Must be 'month', 'quarter', or 'year'.'')"
      using sublist_appendI [of s "''Invalid grouping strategy: '' @ sq"
          "sq @ ''. Must be 'month', 'quarter', or 'year'.''"]
      by simp
    then show ?thesis
      using h assms(1) by (simp add: convert_mbox_to_pdfs_def q group_emails_by_date_def)
  qed
qed

lemma env0_quiet:
  "mkdir env0 ''out'' = None" "quiet None"
  "\<forall>i. temporary_directory env0 i = Inr (''/tmp/conv'' @ str_nat i)"
  "\<forall>p. cleanup env0 p = None" "mailboxes env0 = takeout"
  by (simp_all add: env0_def quiet_def)

lemma parse_missing:
  "merge_and_deduplicate rt0 takeout [''Missing.mbox'']
     = Inl (Exn FileNotFoundError ''mbox file not found: Missing.mbox'')"
  by (simp add: merge_and_deduplicate_def parse_mbox_def takeout_def files_def)

text \<open>
  A path at which there is no mailbox file: parsing raises, and the conversion returns the
  early result that reports it. The two mailbox files of the example under the strategy
  \<open>month\<close>: the conversion returns a result that counts the three emails found.
\<close>

theorem convert_mbox_to_pdfs_outcome_witness:
  "convert_mbox_to_pdfs rt0 env0 [''Missing.mbox''] ''out'' ''month'' None
     = Inr (\<lparr>success = False, pdfs_created = 0, emails_processed = 0,
             errors = [''Failed to parse mbox files: mbox file not found: Missing.mbox''],
             attachment_errors = [], created_files = []\<rparr>, [])
   \<and> (\<exists>r written.
         convert_mbox_to_pdfs rt0 env0 [''All mail.mbox'', ''Inbox.mbox''] ''out'' ''month'' None
           = Inr (r, written)
       \<and> emails_processed r = 3
       \<and> pdfs_created r = length (created_files r)
       \<and> success r = (created_files r \<noteq> []))"
proof -
  have a: "convert_mbox_to_pdfs rt0 env0 [''Missing.mbox''] ''out'' ''month'' None
     = Inr (\<lparr>success = False, pdfs_created = 0, emails_processed = 0,
             errors = [''Failed to parse mbox files: mbox file not found: Missing.mbox''],
             attachment_errors = [], created_files = []\<rparr>, [])"
    using convert_mbox_to_pdfs_outcome [OF env0_quiet(1-4), of rt0 "[''Missing.mbox'']" "''month''"]
      parse_missing
    by (simp add: env0_quiet(5))
  have b: "\<exists>r written.
         convert_mbox_to_pdfs rt0 env0 [''All mail.mbox'', ''Inbox.mbox''] ''out'' ''month'' None
           = Inr (r, written)
       \<and> emails_processed r = 3
       \<and> pdfs_created r = length (created_files r)
       \<and> success r = (created_files r \<noteq> [])"
    using convert_mbox_to_pdfs_outcome [OF env0_quiet(1-4), of rt0
        "[''All mail.mbox'', ''Inbox.mbox'']" "''month''"] merge_takeout
    by (auto simp: env0_quiet(5))
  show ?thesis using a b by blast
qed

text \<open>
  The mailbox files of the example under the strategy \<open>invalid\<close>: three emails are found, and
  the \<open>ValueError\<close> of \<open>group_emails_by_date\<close> reaches the caller of the conversion.
\<close>

theorem convert_mbox_to_pdfs_raises:
  "convert_mbox_to_pdfs rt0 env0 [''All mail.mbox'', ''Inbox.mbox''] ''out'' ''invalid'' None
     = Inl (Exn ValueError
         ''Invalid grouping strategy: 'invalid'. Must be 'month', 'quarter', or 'year'.'')"
  using merge_takeout
  by (simp add: convert_mbox_to_pdfs_def env0_def report_def group_emails_by_date_def sq_def)


end
